theory Spec2Isabelle
  imports Main
begin

section \<open>JavaScript values and the REST helper\<close>

text \<open>
  The notification service is TypeScript whose types are erased at run time: what the
  server sends back is an arbitrary JSON value. \<open>jsval\<close> is that value. An object is
  the list of its own properties (the first binding of a key is the property); numbers
  are restricted to integers, only their truthiness is ever inspected.
\<close>

datatype jsval =
    JUndefined
  | JNull
  | JBool bool
  | JNum int
  | JStr string
  | JArr "jsval list"
  | JObj "(string \<times> jsval) list"

text \<open>Every exception of the service is an \<open>Error\<close> carrying its message.\<close>

datatype error = Error string

text \<open>JavaScript truthiness (\<open>if (x)\<close>, \<open>x && y\<close>, \<open>x || y\<close>, \<open>!x\<close>).\<close>

fun truthy :: "jsval \<Rightarrow> bool" where
  "truthy JUndefined = False"
| "truthy JNull = False"
| "truthy (JBool b) = b"
| "truthy (JNum n) = (n \<noteq> 0)"
| "truthy (JStr s) = (s \<noteq> [])"
| "truthy (JArr xs) = True"
| "truthy (JObj kvs) = True"

text \<open>
  Member access \<open>v.k\<close> for a named (non-index) key on a value that is neither
  \<open>undefined\<close> nor \<open>null\<close>: an object yields the property or \<open>undefined\<close>, every other
  value has no such property.
\<close>

fun get_prop :: "jsval \<Rightarrow> string \<Rightarrow> jsval" where
  "get_prop (JObj kvs) k = (case map_of kvs k of Some v \<Rightarrow> v | None \<Rightarrow> JUndefined)"
| "get_prop v k = JUndefined"

text \<open>
  The operator \<open>k in v\<close> for a named (non-index) key: a \<open>TypeError\<close> on a primitive,
  own-property membership on an object, false on an array.
\<close>

fun in_op :: "string \<Rightarrow> jsval \<Rightarrow> error + bool" where
  "in_op k (JObj kvs) = Inr (k \<in> set (map fst kvs))"
| "in_op k (JArr xs) = Inr False"
| "in_op k v = Inl (Error ''TypeError: right-hand side of in is not an object'')"

text \<open>\<open>a || b\<close>.\<close>

definition or_else :: "jsval \<Rightarrow> jsval \<Rightarrow> jsval" where
  "or_else a b = (if truthy a then a else b)"

text \<open>\<open>v !== false\<close>, as a JavaScript boolean.\<close>

definition not_false :: "jsval \<Rightarrow> jsval" where
  "not_false v = JBool (v \<noteq> JBool False)"

text \<open>
  The module \<open>api\<close>: \<open>request\<close> throws on a transport failure, a non-ok status or an
  envelope without \<open>success\<close>, and otherwise returns the envelope's \<open>data\<close>. The
  server is the environment: each verb is the outcome of the call for a URL (and body).
\<close>

record api =
  api_get :: "string \<Rightarrow> error + jsval"
  api_put :: "string \<Rightarrow> jsval \<Rightarrow> error + jsval"
  api_post :: "string \<Rightarrow> jsval \<Rightarrow> error + jsval"

text \<open>The requests a call of the service submits, in order.\<close>

datatype http_request =
    HttpGet string
  | HttpPut string jsval

section \<open>Preference reconciler\<close>

record UserPreferences =
  email :: jsval
  notifyEmail :: jsval
  notifyBrowser :: jsval
  notifyAllEvents :: jsval
  email1hBefore :: jsval
  email10mBefore :: jsval
  browser1hBefore :: jsval
  browser10mBefore :: jsval
  notifyNewEvents :: jsval

definition DEFAULT_PREFERENCES :: UserPreferences where
  "DEFAULT_PREFERENCES = \<lparr>
     email = JStr '''',
     notifyEmail = JBool True,
     notifyBrowser = JBool True,
     notifyAllEvents = JBool True,
     email1hBefore = JBool True,
     email10mBefore = JBool True,
     browser1hBefore = JBool True,
     browser10mBefore = JBool True,
     notifyNewEvents = JBool True \<rparr>"

text \<open>
  One field of \<open>{ ...DEFAULT_PREFERENCES, ...(response || {}) }\<close>: an own property of
  the response overrides the default; a falsy response or an array contributes no named
  property.
\<close>

fun spread_field :: "jsval \<Rightarrow> string \<Rightarrow> jsval \<Rightarrow> jsval" where
  "spread_field (JObj kvs) k d = (case map_of kvs k of Some v \<Rightarrow> v | None \<Rightarrow> d)"
| "spread_field v k d = d"

text \<open>The test \<open>response && 'notify1hBefore' in response\<close>.\<close>

definition has_legacy :: "jsval \<Rightarrow> error + bool" where
  "has_legacy response =
     (if truthy response then in_op ''notify1hBefore'' response else Inr False)"

text \<open>\<open>notificationService.getPreferences\<close>, the current revision.\<close>

definition getPreferences :: "api \<Rightarrow> UserPreferences" where
  "getPreferences a =
     (case api_get a ''/api/users/me/preferences'' of
        Inl e \<Rightarrow> DEFAULT_PREFERENCES
      | Inr response \<Rightarrow>
          (case has_legacy response of
             Inl e \<Rightarrow> DEFAULT_PREFERENCES
           | Inr True \<Rightarrow> \<lparr>
               email = or_else (get_prop response ''email'') (JStr ''''),
               notifyEmail = not_false (get_prop response ''notifyEmail''),
               notifyBrowser = not_false (get_prop response ''notifyBrowser''),
               notifyAllEvents = not_false (get_prop response ''notifyAllEvents''),
               email1hBefore = not_false (get_prop response ''email1hBefore''),
               email10mBefore = not_false (get_prop response ''email10mBefore''),
               browser1hBefore = not_false (get_prop response ''browser1hBefore''),
               browser10mBefore = not_false (get_prop response ''browser10mBefore''),
               notifyNewEvents = not_false (get_prop response ''notifyNewEvents'') \<rparr>
           | Inr False \<Rightarrow> \<lparr>
               email = spread_field response ''email'' (email DEFAULT_PREFERENCES),
               notifyEmail = spread_field response ''notifyEmail'' (notifyEmail DEFAULT_PREFERENCES),
               notifyBrowser =
                 spread_field response ''notifyBrowser'' (notifyBrowser DEFAULT_PREFERENCES),
               notifyAllEvents =
                 spread_field response ''notifyAllEvents'' (notifyAllEvents DEFAULT_PREFERENCES),
               email1hBefore =
                 spread_field response ''email1hBefore'' (email1hBefore DEFAULT_PREFERENCES),
               email10mBefore =
                 spread_field response ''email10mBefore'' (email10mBefore DEFAULT_PREFERENCES),
               browser1hBefore =
                 spread_field response ''browser1hBefore'' (browser1hBefore DEFAULT_PREFERENCES),
               browser10mBefore =
                 spread_field response ''browser10mBefore'' (browser10mBefore DEFAULT_PREFERENCES),
               notifyNewEvents =
                 spread_field response ''notifyNewEvents'' (notifyNewEvents DEFAULT_PREFERENCES) \<rparr>))"

text \<open>
  The earlier revision's record has no \<open>notifyNewEvents\<close>; its literals leave the
  field \<open>undefined\<close>.
\<close>

definition default_prefs_earlier :: UserPreferences where
  "default_prefs_earlier = DEFAULT_PREFERENCES \<lparr> notifyNewEvents := JUndefined \<rparr>"

text \<open>The fields of an object the server returned, read as a preference record.\<close>

definition as_prefs :: "jsval \<Rightarrow> UserPreferences" where
  "as_prefs v = \<lparr>
     email = get_prop v ''email'',
     notifyEmail = get_prop v ''notifyEmail'',
     notifyBrowser = get_prop v ''notifyBrowser'',
     notifyAllEvents = get_prop v ''notifyAllEvents'',
     email1hBefore = get_prop v ''email1hBefore'',
     email10mBefore = get_prop v ''email10mBefore'',
     browser1hBefore = get_prop v ''browser1hBefore'',
     browser10mBefore = get_prop v ''browser10mBefore'',
     notifyNewEvents = get_prop v ''notifyNewEvents'' \<rparr>"

text \<open>
  \<open>notificationService.getPreferences\<close>, the earlier revision: the legacy pair is
  mapped onto both channels; a record without the legacy pair is returned as it came
  (\<open>response || defaults\<close>).
\<close>

definition getPreferences_earlier :: "api \<Rightarrow> UserPreferences" where
  "getPreferences_earlier a =
     (case api_get a ''/api/users/me/preferences'' of
        Inl e \<Rightarrow> default_prefs_earlier
      | Inr response \<Rightarrow>
          (case has_legacy response of
             Inl e \<Rightarrow> default_prefs_earlier
           | Inr True \<Rightarrow> \<lparr>
               email = or_else (get_prop response ''email'') (JStr ''''),
               notifyEmail = not_false (get_prop response ''notifyEmail''),
               notifyBrowser = not_false (get_prop response ''notifyBrowser''),
               notifyAllEvents = not_false (get_prop response ''notifyAllEvents''),
               email1hBefore = not_false (get_prop response ''notify1hBefore''),
               email10mBefore = not_false (get_prop response ''notify10mBefore''),
               browser1hBefore = not_false (get_prop response ''notify1hBefore''),
               browser10mBefore = not_false (get_prop response ''notify10mBefore''),
               notifyNewEvents = JUndefined \<rparr>
           | Inr False \<Rightarrow>
               (if truthy response then as_prefs response else default_prefs_earlier)))"

subsection \<open>Event-type preferences\<close>

record EventPreference =
  event_type :: string
  is_enabled :: jsval

text \<open>
  One stored record enters the lookup only when
  \<open>pref && typeof pref.event_type === 'string' && typeof pref.is_enabled === 'boolean'\<close>.
\<close>

definition stored_entry :: "jsval \<Rightarrow> (string \<times> bool) option" where
  "stored_entry pref =
     (if truthy pref then
        (case get_prop pref ''event_type'' of
           JStr t \<Rightarrow> (case get_prop pref ''is_enabled'' of JBool b \<Rightarrow> Some (t, b) | _ \<Rightarrow> None)
         | _ \<Rightarrow> None)
      else None)"

text \<open>\<open>existingPrefs.forEach(pref => ... prefMap.set(...))\<close>: a later record overrides.\<close>

definition build_prefMap :: "jsval list \<Rightarrow> (string \<rightharpoonup> bool)" where
  "build_prefMap existingPrefs =
     fold (\<lambda>pref m. case stored_entry pref of Some (t, b) \<Rightarrow> m(t \<mapsto> b) | None \<Rightarrow> m)
       existingPrefs Map.empty"

text \<open>\<open>Array.isArray(v) ? v : []\<close>.\<close>

fun array_or_empty :: "jsval \<Rightarrow> jsval list" where
  "array_or_empty (JArr xs) = xs"
| "array_or_empty v = []"

text \<open>The \<open>catch\<close> branch of both revisions: every candidate type disabled.\<close>

definition all_disabled :: "string list \<Rightarrow> EventPreference list" where
  "all_disabled availableEventTypes =
     map (\<lambda>eventType. \<lparr> event_type = eventType, is_enabled = JBool False \<rparr>) availableEventTypes"

text \<open>
  The \<open>try\<close> block of \<open>getEventPreferences\<close>, current revision; \<open>Inl\<close> is an exception
  raised inside it.
\<close>

definition getEventPreferences_try :: "api \<Rightarrow> string list \<Rightarrow> error + EventPreference list" where
  "getEventPreferences_try a availableEventTypes =
     (let prefs = getPreferences a in
      if availableEventTypes = [] then Inr []
      else
        (case api_get a ''/api/users/me/event-preferences'' of
           Inl e \<Rightarrow> Inl e
         | Inr response \<Rightarrow>
             (let existingPrefs = array_or_empty response;
                  prefMap = build_prefMap existingPrefs;
                  isNewUser = (length existingPrefs = 0)
              in Inr (map (\<lambda>eventType. \<lparr>
                    event_type = eventType,
                    is_enabled =
                      (if isNewUser then notifyAllEvents prefs
                       else (case prefMap eventType of
                               Some b \<Rightarrow> JBool b
                             | None \<Rightarrow> notifyAllEvents prefs)) \<rparr>)
                  availableEventTypes))))"

definition getEventPreferences :: "api \<Rightarrow> string list \<Rightarrow> error + EventPreference list" where
  "getEventPreferences a availableEventTypes =
     (case getEventPreferences_try a availableEventTypes of
        Inl e \<Rightarrow> Inr (all_disabled availableEventTypes)
      | Inr allPrefs \<Rightarrow> Inr allPrefs)"

text \<open>
  The earlier revision reads \<open>response.data\<close> (a \<open>TypeError\<close> when the response is
  \<open>undefined\<close> or \<open>null\<close>) and enables every type for a new user.
\<close>

definition getEventPreferences_earlier_try ::
  "api \<Rightarrow> string list \<Rightarrow> error + EventPreference list" where
  "getEventPreferences_earlier_try a availableEventTypes =
     (let prefs = getPreferences_earlier a in
      case api_get a ''/api/users/me/event-preferences'' of
        Inl e \<Rightarrow> Inl e
      | Inr response \<Rightarrow>
          (if response = JUndefined \<or> response = JNull then
             Inl (Error ''TypeError: cannot read properties of undefined'')
           else
             (let existingPrefs = array_or_empty (get_prop response ''data'');
                  prefMap = build_prefMap existingPrefs;
                  isNewUser = (length existingPrefs = 0)
              in Inr (map (\<lambda>eventType. \<lparr>
                    event_type = eventType,
                    is_enabled =
                      (if isNewUser then JBool True
                       else (case prefMap eventType of
                               Some b \<Rightarrow> JBool b
                             | None \<Rightarrow> notifyAllEvents prefs)) \<rparr>)
                  availableEventTypes))))"

definition getEventPreferences_earlier ::
  "api \<Rightarrow> string list \<Rightarrow> error + EventPreference list" where
  "getEventPreferences_earlier a availableEventTypes =
     (case getEventPreferences_earlier_try a availableEventTypes of
        Inl e \<Rightarrow> Inr (all_disabled availableEventTypes)
      | Inr allPrefs \<Rightarrow> Inr allPrefs)"

subsection \<open>Writing the preference record\<close>

text \<open>
  One field of \<open>{ ...currentPrefs, ...updates }\<close>: an own property of \<open>updates\<close>
  overrides, also when its value is \<open>undefined\<close>.
\<close>

definition merged_field :: "(string \<times> jsval) list \<Rightarrow> string \<Rightarrow> jsval \<Rightarrow> jsval" where
  "merged_field updates k current = (case map_of updates k of Some v \<Rightarrow> v | None \<Rightarrow> current)"

text \<open>
  The snake-case body of the PUT; the \<open>Object.keys(data).forEach\<close> loop deletes the
  properties whose value is \<open>undefined\<close>.
\<close>

definition put_data :: "UserPreferences \<Rightarrow> (string \<times> jsval) list \<Rightarrow> jsval" where
  "put_data currentPrefs updates =
     JObj (filter (\<lambda>(k, v). v \<noteq> JUndefined)
       [(''email'', merged_field updates ''email'' (email currentPrefs)),
        (''notify_email'', merged_field updates ''notifyEmail'' (notifyEmail currentPrefs)),
        (''notify_browser'', merged_field updates ''notifyBrowser'' (notifyBrowser currentPrefs)),
        (''notify_all_events'',
           merged_field updates ''notifyAllEvents'' (notifyAllEvents currentPrefs)),
        (''email_1h_before'', merged_field updates ''email1hBefore'' (email1hBefore currentPrefs)),
        (''email_10m_before'',
           merged_field updates ''email10mBefore'' (email10mBefore currentPrefs)),
        (''browser_1h_before'',
           merged_field updates ''browser1hBefore'' (browser1hBefore currentPrefs)),
        (''browser_10m_before'',
           merged_field updates ''browser10mBefore'' (browser10mBefore currentPrefs)),
        (''notify_new_events'',
           merged_field updates ''notifyNewEvents'' (notifyNewEvents currentPrefs))])"

text \<open>What \<open>updatePreferences\<close> does with the value the PUT resolved to.\<close>

definition check_put_result :: "jsval \<Rightarrow> error + UserPreferences" where
  "check_put_result result =
     (if result = JUndefined \<or> result = JNull then
        Inl (Error ''TypeError: cannot read properties of undefined'')
      else if truthy (get_prop result ''notifyEmail'') \<and> \<not> truthy (get_prop result ''email'') then
        Inl (Error ''Email address is required when email notifications are enabled'')
      else Inr \<lparr>
        email = or_else (get_prop result ''email'') (JStr ''''),
        notifyEmail = not_false (get_prop result ''notify_email''),
        notifyBrowser = not_false (get_prop result ''notify_browser''),
        notifyAllEvents = not_false (get_prop result ''notify_all_events''),
        email1hBefore = not_false (get_prop result ''email_1h_before''),
        email10mBefore = not_false (get_prop result ''email_10m_before''),
        browser1hBefore = not_false (get_prop result ''browser_1h_before''),
        browser10mBefore = not_false (get_prop result ''browser_10m_before''),
        notifyNewEvents = not_false (get_prop result ''notify_new_events'') \<rparr>)"

text \<open>
  \<open>notificationService.updatePreferences\<close> (current revision): the requests it
  submits, in order, and its outcome (\<open>Inl\<close>: the error it re-throws).
\<close>

definition updatePreferences ::
  "api \<Rightarrow> (string \<times> jsval) list \<Rightarrow> http_request list \<times> (error + UserPreferences)" where
  "updatePreferences a updates =
     (let currentPrefs = getPreferences a;
          data = put_data currentPrefs updates
      in ([HttpGet ''/api/users/me/preferences'', HttpPut ''/api/users/me/preferences'' data],
          (case api_put a ''/api/users/me/preferences'' data of
             Inl e \<Rightarrow> Inl e
           | Inr result \<Rightarrow> check_put_result result)))"

subsection \<open>Email syntax\<close>

text \<open>
  The pattern \<open>/^[^\s@]+@[^\s@]+\.[^\s@]+$/\<close> as a list of items matched with
  backtracking. A string is the list of its UTF-16 code units, here all below 256
  (Latin-1): in that range \<open>\s\<close> is the six ASCII white-space characters and the no-break
  space U+00A0, and \<open>toLowerCase\<close> moves A..Z and U+00C0..U+00DE (but the sign U+00D7)
  up by 32.
\<close>

datatype ritem = Lit char | Plus "char \<Rightarrow> bool"

fun rmatch :: "ritem list \<Rightarrow> string \<Rightarrow> bool" where
  "rmatch [] s = (s = [])"
| "rmatch (Lit c # r) [] = False"
| "rmatch (Lit c # r) (x # xs) = (x = c \<and> rmatch r xs)"
| "rmatch (Plus P # r) [] = False"
| "rmatch (Plus P # r) (x # xs) = (P x \<and> (rmatch r xs \<or> rmatch (Plus P # r) xs))"

definition is_space :: "char \<Rightarrow> bool" where
  "is_space c =
     (c \<in> set [CHR '' '', CHR 0x09, CHR 0x0A, CHR 0x0B, CHR 0x0C, CHR 0x0D, CHR 0xA0])"

definition not_space_at :: "char \<Rightarrow> bool" where
  "not_space_at c = (\<not> is_space c \<and> c \<noteq> CHR ''@'')"

definition to_lower :: "char \<Rightarrow> char" where
  "to_lower c =
     (if ((65::nat) \<le> of_char c \<and> of_char c \<le> (90::nat))
         \<or> ((192::nat) \<le> of_char c \<and> of_char c \<le> (222::nat) \<and> of_char c \<noteq> (215::nat))
      then char_of (of_char c + (32::nat))
      else c)"

definition isValidEmail :: "string \<Rightarrow> bool" where
  "isValidEmail email_str =
     (if email_str = [] then False
      else rmatch [Plus not_space_at, Lit CHR ''@'', Plus not_space_at, Lit CHR ''.'',
                   Plus not_space_at] (map to_lower email_str))"

section \<open>Subscription manager\<close>

text \<open>A host-issued push subscription: the endpoint and the two opaque keys.\<close>

record PushSubscription =
  endpoint :: string
  p256dh :: string
  auth :: string

text \<open>
  What a call does besides returning: the host and network operations it awaits and the
  \<open>console.error\<close> lines of \<open>subscribeToPushNotifications\<close> itself, in order.
\<close>

datatype event =
    RequestPermission
  | GetSubscription
  | FetchVapidKey
  | Delay nat
  | Subscribe
  | Post string jsval
  | ConsoleError string

subsection \<open>Bounded retry\<close>

text \<open>
  The \<open>while (attempts < maxAttempts)\<close> loop of \<open>attemptPushSubscription\<close>. The host is
  the outcome of \<open>registration.pushManager.subscribe(options)\<close> at each attempt number;
  the loop state is \<open>attempts\<close>, \<open>lastError\<close> and the events so far.
\<close>

function attempt_loop ::
  "(int \<Rightarrow> error + PushSubscription) \<Rightarrow> int \<Rightarrow> nat \<Rightarrow> int \<Rightarrow> error option \<Rightarrow> event list
     \<Rightarrow> event list \<times> (error + PushSubscription)" where
  "attempt_loop host maxAttempts delay attempts lastError tr =
     (if attempts < maxAttempts then
        (case host (attempts + 1) of
           Inr subscription \<Rightarrow> (tr @ [Subscribe], Inr subscription)
         | Inl err \<Rightarrow>
             attempt_loop host maxAttempts delay (attempts + 1) (Some err)
               (tr @ [Subscribe] @ (if attempts + 1 < maxAttempts then [Delay delay] else [])))
      else
        (tr, Inl (case lastError of
                    Some err \<Rightarrow> err
                  | None \<Rightarrow>
                      Error ''Failed to subscribe to push notifications after multiple attempts'')))"
  by pat_completeness auto
termination
  by (relation "measure (\<lambda>(host, maxAttempts, delay, attempts, lastError, tr).
        nat (maxAttempts - attempts))") auto

declare attempt_loop.simps [simp del]

definition attemptPushSubscription ::
  "(int \<Rightarrow> error + PushSubscription) \<Rightarrow> int \<Rightarrow> nat
     \<Rightarrow> event list \<times> (error + PushSubscription)" where
  "attemptPushSubscription host maxAttempts delay =
     attempt_loop host maxAttempts delay 0 None []"

text \<open>The events of \<open>k\<close> attempts: each but the last is followed by the delay.\<close>

definition attempts_trace :: "nat \<Rightarrow> nat \<Rightarrow> event list" where
  "attempts_trace delay k = concat (replicate (k - 1) [Subscribe, Delay delay]) @ [Subscribe]"

subsection \<open>The browser\<close>

text \<open>
  The response of the direct \<open>fetch\<close> of the VAPID key: \<open>response.ok\<close> and the parsed
  body (\<open>None\<close> when \<open>response.json()\<close> throws).
\<close>

record vapid_response =
  ok :: bool
  json :: "jsval option"

text \<open>
  The browser as the service sees it during one call: the capability probes and the outcome
  of each host operation. \<open>sw_ready\<close> is \<open>navigator.serviceWorker.ready\<close>, resolving to
  whether the registration has a \<open>pushManager\<close>; \<open>atob\<close> is the host's base64 decoder;
  \<open>coerced_key\<close> is what \<open>urlBase64ToUint8Array\<close> makes of an argument that is not
  a string (its parameter is declared \<open>string\<close>; JavaScript coerces the value), left open.
\<close>

record browser =
  navigator_defined :: bool
  brave_isBrave :: bool
  has_serviceWorker :: bool
  has_PushManager :: bool
  has_Notification :: bool
  requestPermission :: "error + string"
  sw_ready :: "error + bool"
  getSubscription_error :: "error option"
  vapid_fetch :: "error + vapid_response"
  atob :: "string \<Rightarrow> error + string"
  coerced_key :: "jsval \<Rightarrow> error + nat list"
  subscribe_outcome :: "error + PushSubscription"

text \<open>
  The push manager of the registration holds the current subscription, if any. Host behaviour
  (Push API), not code of the repository: \<open>getSubscription\<close> resolves to the current
  subscription or \<open>null\<close>; a \<open>subscribe\<close> that succeeds makes its result the current one.
\<close>

type_synonym push_manager = "PushSubscription option"

definition pushManager_getSubscription ::
  "browser \<Rightarrow> push_manager \<Rightarrow> error + PushSubscription option" where
  "pushManager_getSubscription b pm =
     (case getSubscription_error b of Some e \<Rightarrow> Inl e | None \<Rightarrow> Inr pm)"

definition pushManager_subscribe ::
  "browser \<Rightarrow> push_manager \<Rightarrow> push_manager \<times> (error + PushSubscription)" where
  "pushManager_subscribe b pm =
     (case subscribe_outcome b of Inl e \<Rightarrow> (pm, Inl e) | Inr s \<Rightarrow> (Some s, Inr s))"

definition isSupported :: "browser \<Rightarrow> bool" where
  "isSupported b = (has_serviceWorker b \<and> has_PushManager b \<and> has_Notification b)"

definition isBraveBrowser :: "browser \<Rightarrow> bool" where
  "isBraveBrowser b = (if \<not> navigator_defined b then False else brave_isBrave b)"

definition requestNotificationPermission :: "browser \<Rightarrow> event list \<times> string" where
  "requestNotificationPermission b =
     (if \<not> isSupported b then ([], ''denied'')
      else (case requestPermission b of
              Inr permission \<Rightarrow> ([RequestPermission], permission)
            | Inl e \<Rightarrow> ([RequestPermission], ''denied'')))"

text \<open>
  \<open>getVapidPublicKey\<close>: \<open>responseData.publicKey\<close> when
  \<open>responseData?.success && responseData.publicKey\<close> is truthy, and \<open>null\<close> (\<open>None\<close>)
  otherwise and on any failure.
\<close>

definition getVapidPublicKey :: "browser \<Rightarrow> jsval option" where
  "getVapidPublicKey b =
     (case vapid_fetch b of
        Inl e \<Rightarrow> None
      | Inr response \<Rightarrow>
          (if \<not> ok response then None
           else (case json response of
                   None \<Rightarrow> None
                 | Some responseData \<Rightarrow>
                     (if truthy (get_prop responseData ''success'')
                         \<and> truthy (get_prop responseData ''publicKey'')
                      then Some (get_prop responseData ''publicKey'')
                      else None))))"

text \<open>
  \<open>urlBase64ToUint8Array\<close>: pad to a multiple of four, map the URL alphabet back, decode
  with \<open>atob\<close> (which throws on malformed input) and take the character codes.
\<close>

fun urlBase64ToUint8Array :: "browser \<Rightarrow> jsval \<Rightarrow> error + nat list" where
  "urlBase64ToUint8Array b (JStr base64String) =
     (let padding = replicate ((4 - length base64String mod 4) mod 4) CHR ''='';
          base64 = map (\<lambda>c. if c = CHR ''-'' then CHR ''+'' else if c = CHR ''_'' then CHR ''/'' else c)
                     (base64String @ padding)
      in case atob b base64 of
           Inl e \<Rightarrow> Inl e
         | Inr rawData \<Rightarrow> Inr (map of_char rawData))"
| "urlBase64ToUint8Array b v = coerced_key b v"

text \<open>\<open>String.prototype.startsWith\<close> and \<open>String.prototype.includes\<close>.\<close>

fun startsWith :: "string \<Rightarrow> string \<Rightarrow> bool" where
  "startsWith s [] = True"
| "startsWith [] (p # ps) = False"
| "startsWith (x # xs) (p # ps) = (x = p \<and> startsWith xs ps)"

fun str_includes :: "string \<Rightarrow> string \<Rightarrow> bool" where
  "str_includes [] sub = (sub = [])"
| "str_includes (x # xs) sub = (startsWith (x # xs) sub \<or> str_includes xs sub)"

subsection \<open>Subscribing\<close>

text \<open>
  The last \<open>try\<close> of \<open>subscribeToPushNotifications\<close>: send the subscription to the server.
  Whatever happens inside, the subscription is what the function returns.
\<close>

definition subscription_body :: "PushSubscription \<Rightarrow> string \<Rightarrow> jsval" where
  "subscription_body subscription userEmail =
     JObj [(''endpoint'', JStr (endpoint subscription)),
           (''keys'', JObj [(''p256dh'', JStr (p256dh subscription)),
                            (''auth'', JStr (auth subscription))]),
           (''email'', JStr userEmail)]"

definition save_subscription ::
  "api \<Rightarrow> PushSubscription \<Rightarrow> string \<Rightarrow> event list \<times> (error + PushSubscription)" where
  "save_subscription a subscription userEmail =
     (if userEmail = [] then
        ([ConsoleError ''[NotificationService] Failed to save subscription to server:''],
         Inr subscription)
      else
        (case api_post a ''/api/users/me/push-subscriptions''
                (subscription_body subscription userEmail) of
           Inr r \<Rightarrow>
             ([Post ''/api/users/me/push-subscriptions''
                 (subscription_body subscription userEmail)],
              Inr subscription)
         | Inl apiError \<Rightarrow>
             ([Post ''/api/users/me/push-subscriptions''
                 (subscription_body subscription userEmail),
               ConsoleError ''[NotificationService] Failed to save subscription to server:''],
              Inr subscription)))"

text \<open>From the VAPID key on: reached when no existing subscription was found.\<close>

definition subscribe_new ::
  "api \<Rightarrow> browser \<Rightarrow> push_manager \<Rightarrow> string
     \<Rightarrow> push_manager \<times> event list \<times> (error + PushSubscription)" where
  "subscribe_new a b pm userEmail =
     (case getVapidPublicKey b of
        None \<Rightarrow>
          (pm, [FetchVapidKey, ConsoleError ''[NotificationService]''],
           Inl (Error ''Failed to get VAPID public key''))
      | Some vapidPublicKey \<Rightarrow>
          (case urlBase64ToUint8Array b vapidPublicKey of
             Inl e \<Rightarrow>
               (pm, [FetchVapidKey, ConsoleError ''[NotificationService] Error converting VAPID key:''],
                Inl (Error ''Invalid VAPID public key format''))
           | Inr convertedVapidKey \<Rightarrow>
               (let wait = (if isBraveBrowser b then [Delay 500] else []) in
                case pushManager_subscribe b pm of
                  (pm', Inl subscribeError) \<Rightarrow>
                    (pm',
                     [FetchVapidKey] @ wait @
                       [Subscribe,
                        ConsoleError ''[NotificationService] Error during push subscription:''],
                     Inl (Error (''Failed to subscribe to push notifications. '' @
                        (if isBraveBrowser b
                         then ''Please check Brave browser settings and try again.''
                         else ''Please check browser permissions.''))))
                | (pm', Inr subscription) \<Rightarrow>
                    (case save_subscription a subscription userEmail of
                       (tr, r) \<Rightarrow> (pm', [FetchVapidKey] @ wait @ [Subscribe] @ tr, r)))))"

text \<open>The outer \<open>try\<close> block.\<close>

definition subscribe_try ::
  "api \<Rightarrow> browser \<Rightarrow> push_manager \<Rightarrow> string
     \<Rightarrow> push_manager \<times> event list \<times> (error + PushSubscription)" where
  "subscribe_try a b pm userEmail =
     (if \<not> has_serviceWorker b then
        (pm, [], Inl (Error ''Service workers are not supported in this browser''))
      else if \<not> has_PushManager b then
        (pm, [], Inl (Error ''Push notifications are not supported in this browser''))
      else
        (case requestNotificationPermission b of
           (t1, permission) \<Rightarrow>
             (if permission \<noteq> ''granted'' then
                (pm, t1, Inl (Error ''Notification permission not granted''))
              else
                (case sw_ready b of
                   Inl e \<Rightarrow>
                     (pm,
                      t1 @ [ConsoleError
                              ''[NotificationService] Error getting service worker registration:''],
                      Inl (Error ''Failed to initialize service worker''))
                 | Inr has_pushManager \<Rightarrow>
                     (if \<not> has_pushManager then
                        (pm, t1 @ [ConsoleError ''[NotificationService]''],
                         Inl (Error ''PushManager not available in service worker''))
                      else
                        (case pushManager_getSubscription b pm of
                           Inr (Some subscription) \<Rightarrow>
                             (pm, t1 @ [GetSubscription], Inr subscription)
                         | _ \<Rightarrow>
                             (case subscribe_new a b pm userEmail of
                                (pm', tr, r) \<Rightarrow> (pm', t1 @ [GetSubscription] @ tr, r))))))))"

text \<open>
  \<open>notificationService.subscribeToPushNotifications\<close> (current revision): the push
  manager afterwards, the events, and the subscription returned or the error thrown.
\<close>

definition subscribeToPushNotifications ::
  "api \<Rightarrow> browser \<Rightarrow> push_manager \<Rightarrow> string \<Rightarrow> string
     \<Rightarrow> push_manager \<times> event list \<times> (error + PushSubscription)" where
  "subscribeToPushNotifications a b pm userId userEmail =
     (case subscribe_try a b pm userEmail of
        (pm', tr, Inr subscription) \<Rightarrow> (pm', tr, Inr subscription)
      | (pm', tr, Inl (Error errorMsg)) \<Rightarrow>
          (pm',
           tr @ [ConsoleError ''[NotificationService] Error in subscribeToPushNotifications:''],
           (if isBraveBrowser b \<and> str_includes errorMsg ''push service error'' then
              Inl (Error (''Brave blocked push notification subscription. '' @
                          ''Please disable Shields for this site and try again.''))
            else Inl (Error errorMsg))))"

section \<open>Cache manager (service worker)\<close>

record request =
  req_method :: string
  req_url :: string

record response =
  status :: nat
  rtype :: string
  body :: string

text \<open>The network: what \<open>fetch\<close> of a URL does, reject or resolve to a response.\<close>

datatype fetch_result = NetworkError | Resolved response

type_synonym network = "string \<Rightarrow> fetch_result"

text \<open>
  A cache maps request URLs to responses; the cache storage lists the named caches in
  creation order.
\<close>

type_synonym cache = "(string \<times> response) list"

type_synonym cache_storage = "(string \<times> cache) list"

definition CACHE_NAME :: string where
  "CACHE_NAME = ''calendar-app-v1''"

definition CACHE_URLS :: "string list" where
  "CACHE_URLS =
     [''/'',
      ''/index.html'',
      ''/manifest.json'',
      ''/public/icons/calendar-192x192.png'',
      ''/public/icons/calendar-512x512.png'',
      ''/public/icons/icon-192x192.png'',
      ''/public/icons/icon-512x512.png'']"

subsection \<open>The host's Cache API\<close>

text \<open>
  Host behaviour (Cache API), not code of the repository. \<open>caches.keys()\<close>,
  \<open>caches.delete(name)\<close>, \<open>caches.open(name)\<close> (creating the cache when there is none),
  \<open>caches.match(url)\<close> (the first cache, in creation order, that has the URL),
  \<open>cache.match(url)\<close> in the cache of a given name (\<open>cache_lookup\<close>),
  \<open>cache.put\<close>, and \<open>cache.addAll\<close>, which stores either every URL or none: it rejects
  when a fetch fails or answers with a status outside 200..299.
\<close>

definition caches_keys :: "cache_storage \<Rightarrow> string list" where
  "caches_keys cs = map fst cs"

definition caches_delete :: "string \<Rightarrow> cache_storage \<Rightarrow> cache_storage" where
  "caches_delete name cs = filter (\<lambda>(n, c). n \<noteq> name) cs"

definition caches_open :: "string \<Rightarrow> cache_storage \<Rightarrow> cache_storage" where
  "caches_open name cs = (if name \<in> set (map fst cs) then cs else cs @ [(name, [])])"

fun caches_match :: "cache_storage \<Rightarrow> string \<Rightarrow> response option" where
  "caches_match [] url = None"
| "caches_match ((n, c) # cs) url =
     (case map_of c url of Some r \<Rightarrow> Some r | None \<Rightarrow> caches_match cs url)"

definition cache_lookup :: "cache_storage \<Rightarrow> string \<Rightarrow> string \<Rightarrow> response option" where
  "cache_lookup cs name url = (case map_of cs name of Some c \<Rightarrow> map_of c url | None \<Rightarrow> None)"

definition cache_put :: "string \<Rightarrow> string \<Rightarrow> response \<Rightarrow> cache_storage \<Rightarrow> cache_storage" where
  "cache_put name url r cs =
     map (\<lambda>(n, c). if n = name then (n, (url, r) # filter (\<lambda>(u, x). u \<noteq> url) c) else (n, c)) cs"

definition response_ok :: "fetch_result \<Rightarrow> bool" where
  "response_ok f = (case f of NetworkError \<Rightarrow> False | Resolved r \<Rightarrow> 200 \<le> status r \<and> status r < 300)"

definition cache_addAll ::
  "network \<Rightarrow> string \<Rightarrow> string \<Rightarrow> string list \<Rightarrow> cache_storage \<Rightarrow> error + cache_storage" where
  "cache_addAll net origin name urls cs =
     (if list_all (\<lambda>u. response_ok (net (origin @ u))) urls then
        Inr (fold (\<lambda>u s. case net (origin @ u) of
                            Resolved r \<Rightarrow> cache_put name (origin @ u) r s
                          | NetworkError \<Rightarrow> s) urls cs)
      else Inl (Error ''TypeError: Failed to execute addAll on Cache: Request failed''))"

subsection \<open>Event handlers\<close>

text \<open>
  The \<open>install\<close> listener: the cache storage afterwards and how the promise passed to
  \<open>event.waitUntil\<close> settles. The final \<open>.catch\<close> logs the error and resolves.
\<close>

definition install :: "network \<Rightarrow> string \<Rightarrow> cache_storage \<Rightarrow> cache_storage \<times> (error + unit)" where
  "install net origin cs =
     (let opened = caches_open CACHE_NAME cs in
      case cache_addAll net origin CACHE_NAME CACHE_URLS opened of
        Inr cached \<Rightarrow> (cached, Inr ())
      | Inl err \<Rightarrow> (opened, Inr ()))"

text \<open>
  The \<open>activate\<close> listener: every cache whose name is not \<open>CACHE_NAME\<close> is deleted, and
  each window client is sent \<open>SERVICE_WORKER_READY\<close>.
\<close>

definition activate :: "cache_storage \<Rightarrow> 'c list \<Rightarrow> cache_storage \<times> ('c \<times> string) list" where
  "activate cs clients =
     (fold (\<lambda>cacheName s. if cacheName \<noteq> CACHE_NAME then caches_delete cacheName s else s)
        (caches_keys cs) cs,
      map (\<lambda>client. (client, ''SERVICE_WORKER_READY'')) clients)"

text \<open>
  What the \<open>fetch\<close> listener does with a request: leave it to the browser, answer it
  (\<open>None\<close>: the promise resolved to \<open>undefined\<close>), or let the rejection through.
\<close>

datatype fetch_reply = PassThrough | RespondWith "response option" | Rejected

definition fetch_handler ::
  "network \<Rightarrow> string \<Rightarrow> cache_storage \<Rightarrow> request \<Rightarrow> cache_storage \<times> fetch_reply" where
  "fetch_handler net origin cs req =
     (if req_method req \<noteq> ''GET'' \<or> startsWith (req_url req) ''chrome-extension://'' then
        (cs, PassThrough)
      else if str_includes (req_url req) ''/api/'' then
        (case net (req_url req) of
           Resolved r \<Rightarrow>
             (if status r = 200 then (cs, RespondWith (Some r))
              else (cs, RespondWith (caches_match cs (req_url req))))
         | NetworkError \<Rightarrow> (cs, RespondWith (caches_match cs (origin @ ''/offline.html''))))
      else
        (case caches_match cs (req_url req) of
           Some cachedResponse \<Rightarrow> (cs, RespondWith (Some cachedResponse))
         | None \<Rightarrow>
             (case net (req_url req) of
                NetworkError \<Rightarrow> (cs, Rejected)
              | Resolved r \<Rightarrow>
                  (if status r \<noteq> 200 \<or> rtype r \<noteq> ''basic'' then (cs, RespondWith (Some r))
                   else (cache_put CACHE_NAME (req_url req) r (caches_open CACHE_NAME cs),
                         RespondWith (Some r))))))"

section \<open>Concrete inputs\<close>

text \<open>
  A server for the worked examples: it answers the GET of the preference record with
  \<open>prefs\<close>, every other GET with \<open>stored\<close>, and every PUT and POST with \<open>written\<close>.
\<close>

definition server_of :: "(error + jsval) \<Rightarrow> (error + jsval) \<Rightarrow> (error + jsval) \<Rightarrow> api" where
  "server_of prefs stored written = \<lparr>
     api_get = (\<lambda>url. if url = ''/api/users/me/preferences'' then prefs else stored),
     api_put = (\<lambda>url data. written),
     api_post = (\<lambda>url data. written) \<rparr>"

text \<open>The legacy record \<open>{notify1hBefore: false, notify10mBefore: true}\<close>.\<close>

definition legacy_record :: jsval where
  "legacy_record = JObj [(''notify1hBefore'', JBool False), (''notify10mBefore'', JBool True)]"

definition legacy_server :: api where
  "legacy_server = server_of (Inr legacy_record) (Inr (JArr [])) (Inr JNull)"

text \<open>A user who switched \<open>notifyAllEvents\<close> off and has no stored event-type record.\<close>

definition muted_server :: api where
  "muted_server =
     server_of (Inr (JObj [(''notifyAllEvents'', JBool False)])) (Inr (JArr [])) (Inr JNull)"

text \<open>The preference endpoint is down, the event-type endpoint answers; and the converse.\<close>

definition prefs_down_server :: api where
  "prefs_down_server = server_of (Inl (Error ''Request failed'')) (Inr (JArr [])) (Inr JNull)"

definition events_down_server :: api where
  "events_down_server =
     server_of (Inr (JObj [(''notifyAllEvents'', JBool True)])) (Inl (Error ''Request failed''))
       (Inr JNull)"

text \<open>A server that stores what it is sent and answers with an empty record.\<close>

definition accepting_server :: api where
  "accepting_server = server_of (Inr JNull) (Inr (JArr [])) (Inr (JObj []))"

text \<open>A server whose answer to a write repeats \<open>{notifyEmail: true, email: ''}\<close>.\<close>

definition echoing_server :: api where
  "echoing_server =
     server_of (Inr JNull) (Inr (JArr []))
       (Inr (JObj [(''notifyEmail'', JBool True), (''email'', JStr '''')]))"

text \<open>A server that refuses every write.\<close>

definition refusing_server :: api where
  "refusing_server = server_of (Inr JNull) (Inr (JArr [])) (Inl (Error ''Request failed''))"

text \<open>The update \<open>{email: '', notifyEmail: true}\<close>, and the same with a malformed address.\<close>

definition empty_email_update :: "(string \<times> jsval) list" where
  "empty_email_update = [(''email'', JStr ''''), (''notifyEmail'', JBool True)]"

definition bad_email_update :: "(string \<times> jsval) list" where
  "bad_email_update = [(''email'', JStr ''not-an-email''), (''notifyEmail'', JBool True)]"

text \<open>Push hosts: one that fails every attempt, one that succeeds at the third.\<close>

definition new_subscription :: PushSubscription where
  "new_subscription = \<lparr> endpoint = ''https://push.example/sub/1'', p256dh = ''BPk'', auth = ''q2w'' \<rparr>"

definition attempt_error :: "int \<Rightarrow> error" where
  "attempt_error j = Error (if j = 3 then ''push service error (third attempt)''
                            else ''push service error'')"

definition failing_host :: "int \<Rightarrow> error + PushSubscription" where
  "failing_host j = Inl (attempt_error j)"

definition flaky_host :: "int \<Rightarrow> error + PushSubscription" where
  "flaky_host j = (if j < 3 then Inl (attempt_error j) else Inr new_subscription)"

text \<open>
  A browser with every capability, permission granted, no failure of the host, a VAPID
  endpoint answering \<open>{success: true, publicKey: 'AQID'}\<close> and a decoder that knows that
  key.
\<close>

definition ready_browser :: browser where
  "ready_browser = \<lparr>
     navigator_defined = True,
     brave_isBrave = False,
     has_serviceWorker = True,
     has_PushManager = True,
     has_Notification = True,
     requestPermission = Inr ''granted'',
     sw_ready = Inr True,
     getSubscription_error = None,
     vapid_fetch = Inr \<lparr> ok = True,
                          json = Some (JObj [(''success'', JBool True),
                                             (''publicKey'', JStr ''AQID'')]) \<rparr>,
     atob = (\<lambda>s. if s = ''AQID'' then Inr [CHR 0x01, CHR 0x02, CHR 0x03]
                  else Inl (Error ''InvalidCharacterError'')),
     coerced_key = (\<lambda>v. Inl (Error ''InvalidCharacterError'')),
     subscribe_outcome = Inr new_subscription \<rparr>"

text \<open>The service worker's origin, an API request, and cache storages.\<close>

definition app_origin :: string where
  "app_origin = ''https://app.example''"

definition api_request :: request where
  "api_request = \<lparr> req_method = ''GET'', req_url = ''https://app.example/api/events'' \<rparr>"

definition stale_response :: response where
  "stale_response = \<lparr> status = 200, rtype = ''basic'', body = ''stale events'' \<rparr>"

definition live_response :: response where
  "live_response = \<lparr> status = 200, rtype = ''basic'', body = ''live events'' \<rparr>"

definition unavailable_response :: response where
  "unavailable_response = \<lparr> status = 503, rtype = ''basic'', body = ''unavailable'' \<rparr>"

text \<open>
  A storage whose current generation holds a copy of the API URL. The worker never stores
  one itself; the storage of an origin is shared with its pages, which can.
\<close>

definition stale_storage :: cache_storage where
  "stale_storage = [(CACHE_NAME, [(''https://app.example/api/events'', stale_response)])]"

definition old_storage :: cache_storage where
  "old_storage = [(''calendar-app-v0'', [(''https://app.example/'', stale_response)])]"

definition mixed_storage :: cache_storage where
  "mixed_storage =
     [(''calendar-app-v0'', [(''https://app.example/'', stale_response)]),
      (CACHE_NAME, [(''https://app.example/'', live_response)])]"

text \<open>Networks: everything answers 200; everything answers 503; one manifest asset fails.\<close>

definition live_network :: network where
  "live_network url = Resolved live_response"

definition unavailable_network :: network where
  "unavailable_network url = Resolved unavailable_response"

definition broken_manifest_network :: network where
  "broken_manifest_network url =
     (if url = ''https://app.example/manifest.json'' then NetworkError
      else Resolved live_response)"

text \<open>
  The cache storage of a worker that was installed from an empty storage with every
  manifest asset answering 200, and then activated.
\<close>

definition installed_storage :: cache_storage where
  "installed_storage =
     fst (activate (fst (install live_network app_origin [])) ([] :: nat list))"

section \<open>Preference reconciler: results\<close>

subsection \<open>Legacy migration\<close>

text \<open>
  The earlier revision maps the legacy pair onto both channels: whenever the record the
  server returns has the key \<open>notify1hBefore\<close>, both 1h flags are
  \<open>notify1hBefore !== false\<close> and both 10m flags are \<open>notify10mBefore !== false\<close>, so a
  missing value counts as true.
\<close>

lemma getPreferences_earlier_maps_legacy:
  assumes "api_get a ''/api/users/me/preferences'' = Inr (JObj kvs)"
    and "''notify1hBefore'' \<in> set (map fst kvs)"
  shows "email1hBefore (getPreferences_earlier a) = not_false (get_prop (JObj kvs) ''notify1hBefore'')"
    and "browser1hBefore (getPreferences_earlier a) = not_false (get_prop (JObj kvs) ''notify1hBefore'')"
    and "email10mBefore (getPreferences_earlier a) = not_false (get_prop (JObj kvs) ''notify10mBefore'')"
    and "browser10mBefore (getPreferences_earlier a) = not_false (get_prop (JObj kvs) ''notify10mBefore'')"
  using assms by (simp_all add: getPreferences_earlier_def has_legacy_def)

lemma getPreferences_earlier_legacy_example:
  "email1hBefore (getPreferences_earlier legacy_server) = JBool False
   \<and> browser1hBefore (getPreferences_earlier legacy_server) = JBool False
   \<and> email10mBefore (getPreferences_earlier legacy_server) = JBool True
   \<and> browser10mBefore (getPreferences_earlier legacy_server) = JBool True"
  by (simp add: getPreferences_earlier_def has_legacy_def legacy_server_def server_of_def
      legacy_record_def not_false_def)

text \<open>
  C1. Claimed: a legacy record \<open>{notify1hBefore: false, notify10mBefore: true}\<close> without
  channel-specific fields is reconciled to \<open>email1hBefore = browser1hBefore = false\<close> and
  \<open>email10mBefore = browser10mBefore = true\<close>. The current revision of \<open>getPreferences\<close>
  enters its migration branch on that record but reads the four channel-specific fields,
  which are absent, so all four flags come out true and the legacy \<open>false\<close> is lost.
\<close>

theorem getPreferences_drops_legacy_value:
  "api_get legacy_server ''/api/users/me/preferences'' =
     Inr (JObj [(''notify1hBefore'', JBool False), (''notify10mBefore'', JBool True)])
   \<and> email1hBefore (getPreferences legacy_server) = JBool True
   \<and> browser1hBefore (getPreferences legacy_server) = JBool True
   \<and> email10mBefore (getPreferences legacy_server) = JBool True
   \<and> browser10mBefore (getPreferences legacy_server) = JBool True"
  by (simp add: getPreferences_def has_legacy_def legacy_server_def server_of_def
      legacy_record_def not_false_def)

subsection \<open>Event-type preferences of a new user\<close>

text \<open>The earlier revision enables every candidate type of a new user, whatever the flag.\<close>

lemma getEventPreferences_earlier_new_user:
  assumes "api_get a ''/api/users/me/event-preferences'' = Inr response"
    and "response \<noteq> JUndefined" and "response \<noteq> JNull"
    and "array_or_empty (get_prop response ''data'') = []"
  shows "getEventPreferences_earlier a availableEventTypes =
           Inr (map (\<lambda>eventType. \<lparr> event_type = eventType, is_enabled = JBool True \<rparr>)
                  availableEventTypes)"
  using assms
  by (simp add: getEventPreferences_earlier_def getEventPreferences_earlier_try_def Let_def)

text \<open>
  C2, as claimed: with an empty stored set every returned \<open>is_enabled\<close> is true,
  whatever \<open>notifyAllEvents\<close> is. Refuted for a user whose record has
  \<open>notifyAllEvents: false\<close> and who has no stored event-type record: the one candidate
  type comes back disabled.
\<close>

theorem new_user_disabled_counterexample:
  "api_get muted_server ''/api/users/me/event-preferences'' = Inr (JArr [])
   \<and> getEventPreferences muted_server [''meeting''] =
       Inr [\<lparr> event_type = ''meeting'', is_enabled = JBool False \<rparr>]"
  by (simp add: getEventPreferences_def getEventPreferences_try_def getPreferences_def
      has_legacy_def muted_server_def server_of_def Let_def)

text \<open>
  C2, amended: for every candidate list, when the stored set fetched by
  \<open>getEventPreferences\<close> is empty, every returned record has \<open>is_enabled\<close> equal to the
  \<open>notifyAllEvents\<close> value of the reconciled preference record (there is one record per
  candidate type, in order).
\<close>

theorem new_user_follows_global_flag:
  assumes "api_get a ''/api/users/me/event-preferences'' = Inr response"
    and "array_or_empty response = []"
  shows "getEventPreferences a availableEventTypes =
           Inr (map (\<lambda>eventType. \<lparr> event_type = eventType,
                                     is_enabled = notifyAllEvents (getPreferences a) \<rparr>)
                  availableEventTypes)"
  using assms by (simp add: getEventPreferences_def getEventPreferences_try_def Let_def)

theorem new_user_follows_global_flag_witness:
  "api_get muted_server ''/api/users/me/event-preferences'' = Inr (JArr [])
   \<and> array_or_empty (JArr []) = []
   \<and> notifyAllEvents (getPreferences muted_server) = JBool False
   \<and> getEventPreferences muted_server [''meeting'', ''launch''] =
       Inr [\<lparr> event_type = ''meeting'', is_enabled = JBool False \<rparr>,
            \<lparr> event_type = ''launch'', is_enabled = JBool False \<rparr>]"
proof -
  have fetched: "api_get muted_server ''/api/users/me/event-preferences'' = Inr (JArr [])"
    by (simp add: muted_server_def server_of_def)
  have empty: "array_or_empty (JArr []) = []" by simp
  have flag: "notifyAllEvents (getPreferences muted_server) = JBool False"
    by (simp add: getPreferences_def has_legacy_def muted_server_def server_of_def)
  show ?thesis
    using fetched empty flag
      new_user_follows_global_flag [OF fetched empty, of "[''meeting'', ''launch'']"]
    by simp
qed

subsection \<open>The error fallback of the event-type preferences\<close>

text \<open>
  A failure to fetch the user preferences never leaves \<open>getPreferences\<close>: it answers
  with the default record, whose \<open>notifyAllEvents\<close> is true.
\<close>

lemma getPreferences_failure_defaults:
  "api_get a ''/api/users/me/preferences'' = Inl e \<Longrightarrow> getPreferences a = DEFAULT_PREFERENCES"
  by (simp add: getPreferences_def)

text \<open>
  C10, as claimed: a failure to fetch the user preferences makes \<open>getEventPreferences\<close>
  return every candidate type disabled. Refuted: \<open>getPreferences\<close> catches its own
  failure and substitutes the default record, so with the preference endpoint down and an
  empty stored set the candidate type comes back enabled.
\<close>

theorem prefs_failure_not_fallback_counterexample:
  "api_get prefs_down_server ''/api/users/me/preferences'' = Inl (Error ''Request failed'')
   \<and> getEventPreferences prefs_down_server [''meeting''] =
       Inr [\<lparr> event_type = ''meeting'', is_enabled = JBool True \<rparr>]"
  by (simp add: getEventPreferences_def getEventPreferences_try_def getPreferences_def
      DEFAULT_PREFERENCES_def prefs_down_server_def server_of_def Let_def)

text \<open>
  C10, amended: for every candidate list, if fetching the stored event-type preferences
  fails, \<open>getEventPreferences\<close> does not throw and returns one record per candidate type
  with \<open>is_enabled\<close> false. (A failure to fetch the user preferences never reaches this
  fallback.)
\<close>

theorem event_prefs_failure_disables_all:
  assumes "api_get a ''/api/users/me/event-preferences'' = Inl e"
  shows "getEventPreferences a availableEventTypes =
           Inr (map (\<lambda>eventType. \<lparr> event_type = eventType, is_enabled = JBool False \<rparr>)
                  availableEventTypes)"
  using assms
  by (simp add: getEventPreferences_def getEventPreferences_try_def all_disabled_def Let_def)

theorem event_prefs_failure_disables_all_witness:
  "api_get events_down_server ''/api/users/me/event-preferences'' = Inl (Error ''Request failed'')
   \<and> getEventPreferences events_down_server [''meeting'', ''launch''] =
       Inr [\<lparr> event_type = ''meeting'', is_enabled = JBool False \<rparr>,
            \<lparr> event_type = ''launch'', is_enabled = JBool False \<rparr>]"
proof -
  have down: "api_get events_down_server ''/api/users/me/event-preferences'' =
                Inl (Error ''Request failed'')"
    by (simp add: events_down_server_def server_of_def)
  show ?thesis
    using down event_prefs_failure_disables_all [OF down, of "[''meeting'', ''launch'']"]
    by simp
qed

text \<open>The earlier revision has the same fallback, also for a response without a body.\<close>

lemma getEventPreferences_earlier_failure:
  assumes "api_get a ''/api/users/me/event-preferences'' = Inl e
           \<or> api_get a ''/api/users/me/event-preferences'' = Inr JUndefined
           \<or> api_get a ''/api/users/me/event-preferences'' = Inr JNull"
  shows "getEventPreferences_earlier a availableEventTypes = Inr (all_disabled availableEventTypes)"
  using assms
  by (auto simp: getEventPreferences_earlier_def getEventPreferences_earlier_try_def Let_def)

subsection \<open>Email gating\<close>

text \<open>
  Whatever the update is, \<open>updatePreferences\<close> submits the GET of the current record and
  then the PUT of the merged one: nothing stands between the merge and the PUT.
\<close>

lemma updatePreferences_requests:
  "fst (updatePreferences a updates) =
     [HttpGet ''/api/users/me/preferences'',
      HttpPut ''/api/users/me/preferences'' (put_data (getPreferences a) updates)]"
  by (simp add: updatePreferences_def Let_def)

lemma isValidEmail_examples:
  "\<not> isValidEmail ''''" "\<not> isValidEmail ''not-an-email''" "isValidEmail ''ada@example.org''"
  by (simp_all add: isValidEmail_def not_space_at_def is_space_def to_lower_def)

text \<open>When the check on the answer does reject, the PUT has already been submitted.\<close>

lemma updatePreferences_rejects_after_put:
  "updatePreferences echoing_server empty_email_update =
     ([HttpGet ''/api/users/me/preferences'',
       HttpPut ''/api/users/me/preferences''
         (put_data (getPreferences echoing_server) empty_email_update)],
      Inl (Error ''Email address is required when email notifications are enabled''))"
  by (simp add: updatePreferences_def check_put_result_def echoing_server_def server_of_def
      Let_def)

text \<open>
  C4. Claimed: \<open>updatePreferences\<close> rejects a record with \<open>notifyEmail\<close> true and an
  empty or malformed email before any network submission. On \<open>{email: '', notifyEmail:
  true}\<close> and on \<open>{email: 'not-an-email', notifyEmail: true}\<close> the code submits the PUT
  with \<open>notify_email: true\<close> and that address, and resolves. Its only email check runs on
  the answer of the PUT.
\<close>

theorem updatePreferences_puts_invalid_email:
  "\<not> isValidEmail '''' \<and> \<not> isValidEmail ''not-an-email''
   \<and> updatePreferences accepting_server empty_email_update =
       ([HttpGet ''/api/users/me/preferences'',
         HttpPut ''/api/users/me/preferences''
           (JObj [(''email'', JStr ''''), (''notify_email'', JBool True),
                  (''notify_browser'', JBool True), (''notify_all_events'', JBool True),
                  (''email_1h_before'', JBool True), (''email_10m_before'', JBool True),
                  (''browser_1h_before'', JBool True), (''browser_10m_before'', JBool True),
                  (''notify_new_events'', JBool True)])],
        Inr DEFAULT_PREFERENCES)
   \<and> updatePreferences accepting_server bad_email_update =
       ([HttpGet ''/api/users/me/preferences'',
         HttpPut ''/api/users/me/preferences''
           (JObj [(''email'', JStr ''not-an-email''), (''notify_email'', JBool True),
                  (''notify_browser'', JBool True), (''notify_all_events'', JBool True),
                  (''email_1h_before'', JBool True), (''email_10m_before'', JBool True),
                  (''browser_1h_before'', JBool True), (''browser_10m_before'', JBool True),
                  (''notify_new_events'', JBool True)])],
        Inr DEFAULT_PREFERENCES)"
  by (simp add: isValidEmail_def not_space_at_def is_space_def to_lower_def
      updatePreferences_def put_data_def merged_field_def check_put_result_def
      getPreferences_def has_legacy_def DEFAULT_PREFERENCES_def accepting_server_def
      server_of_def empty_email_update_def bad_email_update_def or_else_def not_false_def
      Let_def)

section \<open>Subscription manager: results\<close>

subsection \<open>Retry bound\<close>

lemma replicate_step:
  "a + 1 < (k::int) \<Longrightarrow>
   concat (replicate (nat (k - a - 1)) xs) = xs @ concat (replicate (nat (k - (a + 1) - 1)) xs)"
proof -
  assume "a + 1 < k"
  then have "nat (k - a - 1) = Suc (nat (k - (a + 1) - 1))" by simp
  then show ?thesis by simp
qed

text \<open>
  The loop started at \<open>attempts\<close>, when the host first succeeds at attempt \<open>k\<close>: it
  stops there.
\<close>

lemma attempt_loop_success:
  "attempts < k \<Longrightarrow> k \<le> maxAttempts \<Longrightarrow>
   (\<forall>j. attempts < j \<and> j < k \<longrightarrow> isl (host j)) \<Longrightarrow> host k = Inr s \<Longrightarrow>
   attempt_loop host maxAttempts delay attempts lastError tr =
     (tr @ concat (replicate (nat (k - attempts - 1)) [Subscribe, Delay delay]) @ [Subscribe],
      Inr s)"
proof (induction host maxAttempts delay attempts lastError tr rule: attempt_loop.induct)
  case (1 host maxAttempts delay attempts lastError tr)
  have lt: "attempts < maxAttempts" using "1.prems" by simp
  show ?case
  proof (cases "attempts + 1 = k")
    case True
    then show ?thesis using "1.prems" lt
      by (subst attempt_loop.simps) simp
  next
    case False
    then have lt2: "attempts + 1 < k" using "1.prems" by simp
    then have "isl (host (attempts + 1))" using "1.prems" by simp
    then obtain err where err: "host (attempts + 1) = Inl err"
      by (cases "host (attempts + 1)") auto
    have lt3: "attempts + 1 < maxAttempts" using lt2 "1.prems" by simp
    have ih: "attempt_loop host maxAttempts delay (attempts + 1) (Some err)
           (tr @ [Subscribe] @ (if attempts + 1 < maxAttempts then [Delay delay] else [])) =
          ((tr @ [Subscribe] @ (if attempts + 1 < maxAttempts then [Delay delay] else [])) @
             concat (replicate (nat (k - (attempts + 1) - 1)) [Subscribe, Delay delay]) @
             [Subscribe],
           Inr s)"
      using "1.IH"[OF lt err lt2] "1.prems" by simp
    show ?thesis
      using lt err lt3 ih replicate_step[OF lt2, of "[Subscribe, Delay delay]"]
      by (subst attempt_loop.simps) simp
  qed
qed

text \<open>The loop started at \<open>attempts\<close>, when the host fails up to the bound.\<close>

lemma attempt_loop_exhausted:
  "attempts < maxAttempts \<Longrightarrow> (\<forall>j. attempts < j \<and> j \<le> maxAttempts \<longrightarrow> isl (host j)) \<Longrightarrow>
   attempt_loop host maxAttempts delay attempts lastError tr =
     (tr @ concat (replicate (nat (maxAttempts - attempts - 1)) [Subscribe, Delay delay]) @
        [Subscribe],
      Inl (projl (host maxAttempts)))"
proof (induction host maxAttempts delay attempts lastError tr rule: attempt_loop.induct)
  case (1 host maxAttempts delay attempts lastError tr)
  have lt: "attempts < maxAttempts" using "1.prems" by simp
  then have "isl (host (attempts + 1))" using "1.prems" by simp
  then obtain err where err: "host (attempts + 1) = Inl err"
    by (cases "host (attempts + 1)") auto
  show ?case
  proof (cases "attempts + 1 = maxAttempts")
    case True
    have stop: "attempt_loop host maxAttempts delay maxAttempts (Some err) (tr @ [Subscribe]) =
                  (tr @ [Subscribe], Inl err)"
      by (subst attempt_loop.simps) simp
    show ?thesis using True lt err stop
      by (subst attempt_loop.simps) simp
  next
    case False
    then have lt2: "attempts + 1 < maxAttempts" using lt by simp
    have ih: "attempt_loop host maxAttempts delay (attempts + 1) (Some err)
           (tr @ [Subscribe] @ (if attempts + 1 < maxAttempts then [Delay delay] else [])) =
          ((tr @ [Subscribe] @ (if attempts + 1 < maxAttempts then [Delay delay] else [])) @
             concat (replicate (nat (maxAttempts - (attempts + 1) - 1))
                       [Subscribe, Delay delay]) @
             [Subscribe],
           Inl (projl (host maxAttempts)))"
      using "1.IH"[OF lt err lt2] "1.prems" by simp
    show ?thesis
      using lt err lt2 ih replicate_step[OF lt2, of "[Subscribe, Delay delay]"]
      by (subst attempt_loop.simps) simp
  qed
qed

text \<open>With no attempt allowed the loop body never runs and the generic error is thrown.\<close>

lemma attemptPushSubscription_no_attempts:
  "maxAttempts \<le> 0 \<Longrightarrow>
   attemptPushSubscription host maxAttempts delay =
     ([], Inl (Error ''Failed to subscribe to push notifications after multiple attempts''))"
  unfolding attemptPushSubscription_def by (subst attempt_loop.simps) simp

text \<open>
  C5. For every bound \<open>N \<ge> 1\<close>: if the host fails at every attempt \<open>1..N\<close>,
  \<open>attemptPushSubscription\<close> makes exactly \<open>N\<close> subscribe calls, the delay between
  consecutive ones and none after the last, and throws the error of attempt \<open>N\<close>; if the
  host fails at the attempts before \<open>k \<le> N\<close> and succeeds at \<open>k\<close>, it makes exactly \<open>k\<close>
  calls and returns that subscription.
\<close>

theorem attemptPushSubscription_retry_bound:
  "(1 \<le> N \<and> (\<forall>j. 1 \<le> j \<and> j \<le> N \<longrightarrow> host j = Inl (errs j)) \<longrightarrow>
      attemptPushSubscription host N delay = (attempts_trace delay (nat N), Inl (errs N)))
   \<and> (1 \<le> k \<and> k \<le> N \<and> (\<forall>j. 1 \<le> j \<and> j < k \<longrightarrow> host j = Inl (errs j)) \<and> host k = Inr s \<longrightarrow>
      attemptPushSubscription host N delay = (attempts_trace delay (nat k), Inr s))"
proof (intro conjI impI)
  assume h: "1 \<le> N \<and> (\<forall>j. 1 \<le> j \<and> j \<le> N \<longrightarrow> host j = Inl (errs j))"
  then have "\<forall>j. 0 < j \<and> j \<le> N \<longrightarrow> isl (host j)" by simp
  moreover have "0 < N" using h by simp
  ultimately have "attempt_loop host N delay 0 None [] =
     ([] @ concat (replicate (nat (N - 0 - 1)) [Subscribe, Delay delay]) @ [Subscribe],
      Inl (projl (host N)))"
    by (rule attempt_loop_exhausted[rotated])
  moreover have "host N = Inl (errs N)" using h by simp
  moreover have "nat (N - 0 - 1) = nat N - 1" by simp
  ultimately show
    "attemptPushSubscription host N delay = (attempts_trace delay (nat N), Inl (errs N))"
    by (simp add: attemptPushSubscription_def attempts_trace_def)
next
  assume h: "1 \<le> k \<and> k \<le> N \<and> (\<forall>j. 1 \<le> j \<and> j < k \<longrightarrow> host j = Inl (errs j)) \<and> host k = Inr s"
  then have a: "0 < k" "k \<le> N" "\<forall>j. 0 < j \<and> j < k \<longrightarrow> isl (host j)" "host k = Inr s"
    by simp_all
  have "attempt_loop host N delay 0 None [] =
     ([] @ concat (replicate (nat (k - 0 - 1)) [Subscribe, Delay delay]) @ [Subscribe], Inr s)"
    by (rule attempt_loop_success[OF a])
  moreover have "nat (k - 0 - 1) = nat k - 1" by simp
  ultimately show
    "attemptPushSubscription host N delay = (attempts_trace delay (nat k), Inr s)"
    by (simp add: attemptPushSubscription_def attempts_trace_def)
qed

theorem attemptPushSubscription_retry_bound_witness:
  "(1::int) \<le> 3
   \<and> failing_host 1 = Inl (attempt_error 1)
   \<and> failing_host 2 = Inl (attempt_error 2)
   \<and> failing_host 3 = Inl (attempt_error 3)
   \<and> attemptPushSubscription failing_host 3 500 =
       ([Subscribe, Delay 500, Subscribe, Delay 500, Subscribe],
        Inl (Error ''push service error (third attempt)''))
   \<and> (3::int) \<le> 5
   \<and> flaky_host 1 = Inl (attempt_error 1)
   \<and> flaky_host 2 = Inl (attempt_error 2)
   \<and> flaky_host 3 = Inr new_subscription
   \<and> attemptPushSubscription flaky_host 5 1000 =
       ([Subscribe, Delay 1000, Subscribe, Delay 1000, Subscribe], Inr new_subscription)"
proof -
  have fails: "\<forall>j. 1 \<le> j \<and> j \<le> 3 \<longrightarrow> failing_host j = Inl (attempt_error j)"
    by (simp add: failing_host_def)
  have early: "\<forall>j. 1 \<le> j \<and> j < 3 \<longrightarrow> flaky_host j = Inl (attempt_error j)"
    by (simp add: flaky_host_def)
  have third: "flaky_host 3 = Inr new_subscription"
    by (simp add: flaky_host_def)
  have tr: "attempts_trace d (nat 3) = [Subscribe, Delay d, Subscribe, Delay d, Subscribe]" for d
    by (simp add: attempts_trace_def numeral_3_eq_3)
  have exhausted: "attemptPushSubscription failing_host 3 500 =
      (attempts_trace 500 (nat 3), Inl (attempt_error 3))"
    using attemptPushSubscription_retry_bound
            [of 3 failing_host attempt_error 500 3 new_subscription] fails
    by simp
  have succeeded: "attemptPushSubscription flaky_host 5 1000 =
      (attempts_trace 1000 (nat 3), Inr new_subscription)"
    using attemptPushSubscription_retry_bound
            [of 5 flaky_host attempt_error 1000 3 new_subscription] early third
    by simp
  show ?thesis
    using third exhausted succeeded tr
    by (simp add: attempt_error_def failing_host_def flaky_host_def)
qed

subsection \<open>Idempotent subscribe\<close>

text \<open>When the host has a subscription and the preconditions hold, that one is returned.\<close>

lemma existing_subscription_returned:
  assumes "has_serviceWorker b" "has_PushManager b" "has_Notification b"
    and "requestPermission b = Inr ''granted''" and "sw_ready b = Inr True"
    and "pushManager_getSubscription b pm = Inr (Some s)"
  shows "subscribeToPushNotifications a b pm userId userEmail =
           (pm, [RequestPermission, GetSubscription], Inr s)"
  using assms
  by (simp add: subscribeToPushNotifications_def subscribe_try_def
      requestNotificationPermission_def isSupported_def)

text \<open>A subscription that a call returns is the host's current one afterwards.\<close>

lemma subscribe_new_current:
  "subscribe_new a b pm userEmail = (pm', tr, Inr s) \<Longrightarrow> pm' = Some s"
  unfolding subscribe_new_def pushManager_subscribe_def save_subscription_def
  by (auto simp: Let_def split: option.splits sum.splits if_splits prod.splits)

lemma subscribe_try_current:
  "subscribe_try a b pm userEmail = (pm', tr, Inr s) \<Longrightarrow> pm' = Some s"
  unfolding subscribe_try_def pushManager_getSubscription_def
  by (auto simp: Let_def split: option.splits sum.splits if_splits prod.splits
      dest: subscribe_new_current)

lemma returned_is_current:
  assumes "subscribeToPushNotifications a b pm userId userEmail = (pm', tr, Inr s)"
  shows "pm' = Some s"
proof -
  obtain p t r where st: "subscribe_try a b pm userEmail = (p, t, r)"
    by (cases "subscribe_try a b pm userEmail") auto
  show ?thesis
  proof (cases r)
    case (Inr s')
    with st assms have "p = pm'" "s' = s"
      by (simp_all add: subscribeToPushNotifications_def)
    with st Inr show ?thesis using subscribe_try_current by blast
  next
    case (Inl e)
    with st assms show ?thesis
      by (cases e) (simp add: subscribeToPushNotifications_def split: if_splits)
  qed
qed

text \<open>
  C6. Two calls of subscribe in sequence, nothing unsubscribing in between (the second
  starts from the push manager the first left). If the first call returns a subscription
  and the second meets the preconditions (capabilities present, permission granted,
  registration ready, \<open>getSubscription\<close> answering), the second returns the same
  subscription, leaves the push manager as it is, and its only host operations are the
  permission request and \<open>getSubscription\<close>: no \<open>pushManager.subscribe\<close>.
\<close>

theorem subscribe_twice_same_subscription:
  assumes first: "subscribeToPushNotifications a1 b1 pm userId1 userEmail1 = (pm1, tr1, Inr s1)"
    and caps: "has_serviceWorker b2 \<and> has_PushManager b2 \<and> has_Notification b2"
    and perm: "requestPermission b2 = Inr ''granted''"
    and ready: "sw_ready b2 = Inr True"
    and getsub: "getSubscription_error b2 = None"
  shows "subscribeToPushNotifications a2 b2 pm1 userId2 userEmail2 =
           (pm1, [RequestPermission, GetSubscription], Inr s1)
         \<and> Subscribe \<notin> set [RequestPermission, GetSubscription]"
proof -
  have "pm1 = Some s1" using first by (rule returned_is_current)
  then have "pushManager_getSubscription b2 pm1 = Inr (Some s1)"
    using getsub by (simp add: pushManager_getSubscription_def)
  then show ?thesis
    using caps perm ready existing_subscription_returned by simp
qed

lemma first_subscribe_example:
  "subscribeToPushNotifications accepting_server ready_browser None ''u1'' ''ada@example.org'' =
     (Some new_subscription,
      [RequestPermission, GetSubscription, FetchVapidKey, Subscribe,
       Post ''/api/users/me/push-subscriptions''
         (subscription_body new_subscription ''ada@example.org'')],
      Inr new_subscription)"
  by (simp add: subscribeToPushNotifications_def subscribe_try_def subscribe_new_def
      save_subscription_def requestNotificationPermission_def isSupported_def
      isBraveBrowser_def pushManager_getSubscription_def pushManager_subscribe_def
      getVapidPublicKey_def ready_browser_def accepting_server_def
      server_of_def Let_def)

theorem subscribe_twice_same_subscription_witness:
  "subscribeToPushNotifications accepting_server ready_browser None ''u1'' ''ada@example.org'' =
     (Some new_subscription,
      [RequestPermission, GetSubscription, FetchVapidKey, Subscribe,
       Post ''/api/users/me/push-subscriptions''
         (subscription_body new_subscription ''ada@example.org'')],
      Inr new_subscription)
   \<and> (has_serviceWorker ready_browser \<and> has_PushManager ready_browser
        \<and> has_Notification ready_browser)
   \<and> requestPermission ready_browser = Inr ''granted''
   \<and> sw_ready ready_browser = Inr True
   \<and> getSubscription_error ready_browser = None
   \<and> subscribeToPushNotifications accepting_server ready_browser (Some new_subscription)
        ''u1'' ''ada@example.org'' =
       (Some new_subscription, [RequestPermission, GetSubscription], Inr new_subscription)"
proof -
  have caps: "has_serviceWorker ready_browser \<and> has_PushManager ready_browser
               \<and> has_Notification ready_browser"
    by (simp add: ready_browser_def)
  have perm: "requestPermission ready_browser = Inr ''granted''"
    by (simp add: ready_browser_def)
  have ready: "sw_ready ready_browser = Inr True"
    by (simp add: ready_browser_def)
  have getsub: "getSubscription_error ready_browser = None"
    by (simp add: ready_browser_def)
  show ?thesis
    using first_subscribe_example caps perm ready getsub
      subscribe_twice_same_subscription
        [OF first_subscribe_example caps perm ready getsub,
         of accepting_server "''u1''" "''ada@example.org''"]
    by simp
qed

subsection \<open>Server synchronisation is best effort\<close>

lemma subscribe_new_local:
  assumes "subscribe_new a b pm userEmail = (pm', tr, r)"
    and "Subscribe \<in> set tr" and "subscribe_outcome b = Inr s"
  shows "r = Inr s"
  using assms unfolding subscribe_new_def pushManager_subscribe_def save_subscription_def
  by (auto simp: Let_def split: option.splits sum.splits if_splits prod.splits)

lemma subscribe_try_local:
  assumes "subscribe_try a b pm userEmail = (pm', tr, r)"
    and "Subscribe \<in> set tr" and "subscribe_outcome b = Inr s"
  shows "r = Inr s"
  using assms unfolding subscribe_try_def requestNotificationPermission_def
  by (auto simp: Let_def split: option.splits sum.splits if_splits prod.splits
      dest: subscribe_new_local)

lemma subscribe_new_logged:
  assumes "subscribe_new a b pm userEmail = (pm', tr, r)"
    and "Subscribe \<in> set tr" and "subscribe_outcome b = Inr s"
    and "api_post a ''/api/users/me/push-subscriptions'' (subscription_body s userEmail) = Inl e"
  shows "ConsoleError ''[NotificationService] Failed to save subscription to server:'' \<in> set tr"
  using assms unfolding subscribe_new_def pushManager_subscribe_def save_subscription_def
  by (auto simp: Let_def split: option.splits sum.splits if_splits prod.splits)

lemma subscribe_try_logged:
  assumes "subscribe_try a b pm userEmail = (pm', tr, r)"
    and "Subscribe \<in> set tr" and "subscribe_outcome b = Inr s"
    and "api_post a ''/api/users/me/push-subscriptions'' (subscription_body s userEmail) = Inl e"
  shows "ConsoleError ''[NotificationService] Failed to save subscription to server:'' \<in> set tr"
  using assms unfolding subscribe_try_def requestNotificationPermission_def
  by (auto simp: Let_def split: option.splits sum.splits if_splits prod.splits
      dest: subscribe_new_logged)

lemma subscribe_try_no_outer_log:
  "subscribe_try a b pm userEmail = (pm', tr, r) \<Longrightarrow>
   ConsoleError ''[NotificationService] Error in subscribeToPushNotifications:'' \<notin> set tr"
  unfolding subscribe_try_def subscribe_new_def requestNotificationPermission_def
    save_subscription_def
  by (auto simp: Let_def split: option.splits sum.splits if_splits prod.splits)

text \<open>
  C7. If a call of \<open>subscribeToPushNotifications\<close> reached the host-level
  \<open>pushManager.subscribe\<close>, that call succeeded with \<open>s\<close>, and the POST of the
  subscription (endpoint, keys, email) fails, then the call returns \<open>s\<close>; the failure is
  logged by the inner \<open>catch\<close> and the outer \<open>catch\<close>, which re-throws, is not entered.
\<close>

theorem server_sync_failure_not_escalated:
  assumes call: "subscribeToPushNotifications a b pm userId userEmail = (pm', tr, r)"
    and subscribed: "Subscribe \<in> set tr \<and> subscribe_outcome b = Inr s"
    and post_fails:
      "api_post a ''/api/users/me/push-subscriptions'' (subscription_body s userEmail) = Inl e"
  shows "r = Inr s
     \<and> ConsoleError ''[NotificationService] Failed to save subscription to server:'' \<in> set tr
     \<and> ConsoleError ''[NotificationService] Error in subscribeToPushNotifications:'' \<notin> set tr"
proof -
  obtain p t r0 where st: "subscribe_try a b pm userEmail = (p, t, r0)"
    by (cases "subscribe_try a b pm userEmail") auto
  have sub_t: "Subscribe \<in> set t"
    using st call subscribed
    by (cases r0) (auto simp: subscribeToPushNotifications_def split: error.splits if_splits)
  have out: "subscribe_outcome b = Inr s" using subscribed by simp
  have r0: "r0 = Inr s" using subscribe_try_local[OF st sub_t out] .
  have tr: "tr = t" and r: "r = r0"
    using st call r0 by (simp_all add: subscribeToPushNotifications_def)
  have logged:
    "ConsoleError ''[NotificationService] Failed to save subscription to server:'' \<in> set t"
    using subscribe_try_logged[OF st sub_t out post_fails] .
  have "ConsoleError ''[NotificationService] Error in subscribeToPushNotifications:'' \<notin> set t"
    using st by (rule subscribe_try_no_outer_log)
  then show ?thesis using r0 tr r logged by simp
qed

lemma refused_subscribe_example:
  "subscribeToPushNotifications refusing_server ready_browser None ''u1'' ''ada@example.org'' =
     (Some new_subscription,
      [RequestPermission, GetSubscription, FetchVapidKey, Subscribe,
       Post ''/api/users/me/push-subscriptions''
         (subscription_body new_subscription ''ada@example.org''),
       ConsoleError ''[NotificationService] Failed to save subscription to server:''],
      Inr new_subscription)"
  by (simp add: subscribeToPushNotifications_def subscribe_try_def subscribe_new_def
      save_subscription_def requestNotificationPermission_def isSupported_def
      isBraveBrowser_def pushManager_getSubscription_def pushManager_subscribe_def
      getVapidPublicKey_def ready_browser_def refusing_server_def
      server_of_def Let_def)

theorem server_sync_failure_not_escalated_witness:
  "subscribeToPushNotifications refusing_server ready_browser None ''u1'' ''ada@example.org'' =
     (Some new_subscription,
      [RequestPermission, GetSubscription, FetchVapidKey, Subscribe,
       Post ''/api/users/me/push-subscriptions''
         (subscription_body new_subscription ''ada@example.org''),
       ConsoleError ''[NotificationService] Failed to save subscription to server:''],
      Inr new_subscription)
   \<and> subscribe_outcome ready_browser = Inr new_subscription
   \<and> api_post refusing_server ''/api/users/me/push-subscriptions''
        (subscription_body new_subscription ''ada@example.org'') = Inl (Error ''Request failed'')"
proof -
  let ?tr = "[RequestPermission, GetSubscription, FetchVapidKey, Subscribe,
       Post ''/api/users/me/push-subscriptions''
         (subscription_body new_subscription ''ada@example.org''),
       ConsoleError ''[NotificationService] Failed to save subscription to server:'']"
  have subscribed: "Subscribe \<in> set ?tr \<and> subscribe_outcome ready_browser = Inr new_subscription"
    by (simp add: ready_browser_def)
  have post_fails: "api_post refusing_server ''/api/users/me/push-subscriptions''
        (subscription_body new_subscription ''ada@example.org'') = Inl (Error ''Request failed'')"
    by (simp add: refusing_server_def server_of_def)
  have "Inr new_subscription = (Inr new_subscription :: error + PushSubscription)
     \<and> ConsoleError ''[NotificationService] Failed to save subscription to server:'' \<in> set ?tr
     \<and> ConsoleError ''[NotificationService] Error in subscribeToPushNotifications:'' \<notin> set ?tr"
    by (rule server_sync_failure_not_escalated
              [OF refused_subscribe_example subscribed post_fails])
  then show ?thesis
    using refused_subscribe_example subscribed post_fails by simp
qed

section \<open>Cache manager: results\<close>

subsection \<open>Request routing\<close>

text \<open>The API branch of the handler never writes to the cache storage.\<close>

lemma api_branch_stores_nothing:
  assumes "str_includes (req_url req) ''/api/''"
  shows "fst (fetch_handler net origin cs req) = cs"
  using assms by (simp add: fetch_handler_def split: fetch_result.splits)

text \<open>The storage the worker has built once installed and activated holds no API URL.\<close>

lemma installed_storage_value:
  "installed_storage =
     [(CACHE_NAME,
       [(''https://app.example/public/icons/icon-512x512.png'', live_response),
        (''https://app.example/public/icons/icon-192x192.png'', live_response),
        (''https://app.example/public/icons/calendar-512x512.png'', live_response),
        (''https://app.example/public/icons/calendar-192x192.png'', live_response),
        (''https://app.example/manifest.json'', live_response),
        (''https://app.example/index.html'', live_response),
        (''https://app.example/'', live_response)])]"
  by (simp add: installed_storage_def install_def activate_def cache_addAll_def
      caches_open_def caches_keys_def caches_delete_def cache_put_def CACHE_URLS_def
      CACHE_NAME_def response_ok_def live_network_def live_response_def app_origin_def Let_def)

text \<open>
  C3, as claimed: for a GET under the API prefix, when the network fetch resolves the
  handler returns the live network response as it is, whatever its status. Refuted on the
  storage the worker itself has built (installed, activated): the network answers 503
  and the handler does not answer with that response.
\<close>

theorem api_non200_not_returned_counterexample:
  "req_method api_request = ''GET''
   \<and> str_includes (req_url api_request) ''/api/''
   \<and> unavailable_network (req_url api_request) = Resolved unavailable_response
   \<and> snd (fetch_handler unavailable_network app_origin installed_storage api_request) \<noteq>
       RespondWith (Some unavailable_response)"
  by (simp add: fetch_handler_def api_request_def unavailable_network_def
      unavailable_response_def installed_storage_value CACHE_NAME_def)

text \<open>
  C3, amended: for every intercepted GET request whose URL contains the API prefix, when
  the network fetch resolves with status 200 the handler returns the live response as it
  is, even if a cached copy exists; when it resolves with another status and the cache
  holds an entry for the request, the handler returns that entry. The cache storage is
  left unchanged.
\<close>

theorem api_request_network_first:
  assumes "req_method req = ''GET''"
    and "\<not> startsWith (req_url req) ''chrome-extension://''"
    and "str_includes (req_url req) ''/api/''"
    and "net (req_url req) = Resolved r"
  shows "(status r = 200 \<longrightarrow> fetch_handler net origin cs req = (cs, RespondWith (Some r)))
       \<and> (status r \<noteq> 200 \<longrightarrow>
            (\<forall>c. caches_match cs (req_url req) = Some c \<longrightarrow>
                 fetch_handler net origin cs req = (cs, RespondWith (Some c))))"
  using assms by (simp add: fetch_handler_def)

theorem api_request_network_first_witness:
  "req_method api_request = ''GET''
   \<and> \<not> startsWith (req_url api_request) ''chrome-extension://''
   \<and> str_includes (req_url api_request) ''/api/''
   \<and> caches_match stale_storage (req_url api_request) = Some stale_response
   \<and> live_network (req_url api_request) = Resolved live_response
   \<and> status live_response = 200
   \<and> fetch_handler live_network app_origin stale_storage api_request =
       (stale_storage, RespondWith (Some live_response))
   \<and> unavailable_network (req_url api_request) = Resolved unavailable_response
   \<and> status unavailable_response \<noteq> 200
   \<and> fetch_handler unavailable_network app_origin stale_storage api_request =
       (stale_storage, RespondWith (Some stale_response))"
proof -
  have m: "req_method api_request = ''GET''"
    by (simp add: api_request_def)
  have ext: "\<not> startsWith (req_url api_request) ''chrome-extension://''"
    by (simp add: api_request_def)
  have isapi: "str_includes (req_url api_request) ''/api/''"
    by (simp add: api_request_def)
  have live: "live_network (req_url api_request) = Resolved live_response"
    by (simp add: live_network_def)
  have down: "unavailable_network (req_url api_request) = Resolved unavailable_response"
    by (simp add: unavailable_network_def)
  have ok: "status live_response = 200"
    by (simp add: live_response_def)
  have bad: "status unavailable_response \<noteq> 200"
    by (simp add: unavailable_response_def)
  have cached: "caches_match stale_storage (req_url api_request) = Some stale_response"
    by (simp add: stale_storage_def api_request_def)
  show ?thesis
    using m ext isapi live down ok bad cached
      api_request_network_first
        [where req = api_request and net = live_network and r = live_response
           and origin = app_origin and cs = stale_storage, OF m ext isapi live]
      api_request_network_first
        [where req = api_request and net = unavailable_network and r = unavailable_response
           and origin = app_origin and cs = stale_storage, OF m ext isapi down]
    by simp
qed

subsection \<open>Cache versioning\<close>

lemma fold_delete_others:
  "fold (\<lambda>cacheName s. if cacheName \<noteq> C then caches_delete cacheName s else s) names cs =
   filter (\<lambda>(n, c). n = C \<or> n \<notin> set names) cs"
proof (induction names arbitrary: cs)
  case Nil
  then show ?case by simp
next
  case (Cons x xs)
  have "filter (\<lambda>(n, c). n = C \<or> n \<notin> set xs) (caches_delete x cs) =
        filter (\<lambda>(n, c). n = C \<or> n \<notin> set (x # xs)) cs" if "x \<noteq> C"
    using that by (induction cs) (auto simp: caches_delete_def)
  moreover have "filter (\<lambda>(n, c). n = C \<or> n \<notin> set xs) cs =
        filter (\<lambda>(n, c). n = C \<or> n \<notin> set (x # xs)) cs" if "x = C"
    using that by (induction cs) auto
  ultimately show ?case using Cons.IH by simp
qed

text \<open>What \<open>activate\<close> leaves of the storage: the caches named \<open>CACHE_NAME\<close>.\<close>

lemma activate_storage:
  "fst (activate cs clients) = filter (\<lambda>(n, c). n = CACHE_NAME) cs"
proof -
  have "filter (\<lambda>(n, c). n = CACHE_NAME \<or> n \<notin> set (map fst cs)) cs =
        filter (\<lambda>(n, c). n = CACHE_NAME) cs"
    by (rule filter_cong) force+
  then show ?thesis
    by (simp add: activate_def caches_keys_def fold_delete_others)
qed

lemma keys_filter_current:
  "distinct (map fst cs) \<Longrightarrow> C \<in> set (map fst cs) \<Longrightarrow>
   map fst (filter (\<lambda>(n, c). n = C) cs) = [C]"
proof (induction cs)
  case Nil
  then show ?case by simp
next
  case (Cons p cs)
  obtain n c where p: "p = (n, c)" by (cases p)
  show ?case
  proof (cases "n = C")
    case True
    then have "C \<notin> set (map fst cs)" using Cons.prems p by simp
    then have "filter (\<lambda>(n, c). n = C) cs = []"
      by (induction cs) auto
    then show ?thesis using True p by simp
  next
    case False
    then show ?thesis using Cons p by simp
  qed
qed

lemma caches_match_current:
  "caches_match (filter (\<lambda>(n, c). n = C) cs) url = Some r \<Longrightarrow>
   \<exists>c. (C, c) \<in> set cs \<and> map_of c url = Some r"
  by (induction cs) (auto split: option.splits if_splits)

lemma cache_put_keys: "map fst (cache_put name url r cs) = map fst cs"
  by (induction cs) (auto simp: cache_put_def)

lemma fold_put_keys:
  "map fst (fold (\<lambda>u s. case net (origin @ u) of
                          Resolved r \<Rightarrow> cache_put name (origin @ u) r s
                        | NetworkError \<Rightarrow> s) urls cs) = map fst cs"
  by (induction urls arbitrary: cs) (auto simp: cache_put_keys split: fetch_result.splits)

lemma install_keys:
  "map fst (fst (install net origin cs)) = map fst (caches_open CACHE_NAME cs)"
  by (simp add: install_def Let_def cache_addAll_def fold_put_keys split: sum.splits)

lemma caches_open_keys:
  "distinct (map fst cs) \<Longrightarrow>
   distinct (map fst (caches_open C cs)) \<and> C \<in> set (map fst (caches_open C cs))"
  by (auto simp: caches_open_def)

text \<open>
  C8. The \<open>activate\<close> handler runs on the storage the \<open>install\<close> handler left, in which
  the current generation exists (\<open>install\<close> opens it) and names are distinct. After it
  completes exactly one generation, the current version tag, is present: every generation
  whose name differs has been deleted (no name but \<open>CACHE_NAME\<close> is left, whatever the
  storage was), and every entry that can still be matched belongs to the current
  generation, so the entries of previous generations are unreachable. The last conjunct is
  the life cycle itself: \<open>install\<close>, then \<open>activate\<close>, on any storage and network.
\<close>

theorem activate_leaves_current_only:
  "set (caches_keys (fst (activate cs clients))) \<subseteq> {CACHE_NAME}
   \<and> (\<forall>url r. caches_match (fst (activate cs clients)) url = Some r \<longrightarrow>
         (\<exists>c. (CACHE_NAME, c) \<in> set cs \<and> map_of c url = Some r))
   \<and> (distinct (caches_keys cs) \<and> CACHE_NAME \<in> set (caches_keys cs) \<longrightarrow>
         caches_keys (fst (activate cs clients)) = [CACHE_NAME])
   \<and> (distinct (caches_keys cs) \<longrightarrow>
         caches_keys (fst (activate (fst (install net origin cs)) clients)) = [CACHE_NAME])"
proof (intro conjI allI impI)
  show "set (caches_keys (fst (activate cs clients))) \<subseteq> {CACHE_NAME}"
    by (auto simp: activate_storage caches_keys_def)
next
  fix url r
  assume "caches_match (fst (activate cs clients)) url = Some r"
  then show "\<exists>c. (CACHE_NAME, c) \<in> set cs \<and> map_of c url = Some r"
    by (simp add: activate_storage caches_match_current)
next
  assume "distinct (caches_keys cs) \<and> CACHE_NAME \<in> set (caches_keys cs)"
  then show "caches_keys (fst (activate cs clients)) = [CACHE_NAME]"
    by (simp add: activate_storage caches_keys_def keys_filter_current)
next
  assume d: "distinct (caches_keys cs)"
  let ?cs = "fst (install net origin cs)"
  have "distinct (map fst ?cs) \<and> CACHE_NAME \<in> set (map fst ?cs)"
    using d caches_open_keys[of cs CACHE_NAME] by (simp add: install_keys caches_keys_def)
  then show "caches_keys (fst (activate ?cs clients)) = [CACHE_NAME]"
    by (simp add: activate_storage caches_keys_def keys_filter_current)
qed

theorem activate_leaves_current_only_witness:
  "distinct (caches_keys mixed_storage) \<and> CACHE_NAME \<in> set (caches_keys mixed_storage)
   \<and> caches_keys (fst (activate mixed_storage [1::nat])) = [CACHE_NAME]
   \<and> caches_match mixed_storage ''https://app.example/'' = Some stale_response
   \<and> caches_match (fst (activate mixed_storage [1::nat])) ''https://app.example/'' =
       Some live_response
   \<and> (\<exists>c. (CACHE_NAME, c) \<in> set mixed_storage
            \<and> map_of c ''https://app.example/'' = Some live_response)
   \<and> distinct (caches_keys old_storage)
   \<and> caches_keys (fst (activate (fst (install live_network app_origin old_storage)) [1::nat])) =
       [CACHE_NAME]"
proof -
  have mixed: "distinct (caches_keys mixed_storage) \<and> CACHE_NAME \<in> set (caches_keys mixed_storage)"
    by (simp add: caches_keys_def mixed_storage_def CACHE_NAME_def)
  have old: "distinct (caches_keys old_storage)"
    by (simp add: caches_keys_def old_storage_def)
  have before: "caches_match mixed_storage ''https://app.example/'' = Some stale_response"
    by (simp add: mixed_storage_def)
  have after: "caches_match (fst (activate mixed_storage [1::nat])) ''https://app.example/'' =
       Some live_response"
    by (simp add: activate_def caches_keys_def caches_delete_def mixed_storage_def CACHE_NAME_def)
  have current: "\<exists>c. (CACHE_NAME, c) \<in> set mixed_storage
            \<and> map_of c ''https://app.example/'' = Some live_response"
    using after activate_leaves_current_only [of mixed_storage "[1::nat]" live_network app_origin]
    by blast
  show ?thesis
    using mixed old before after current
      activate_leaves_current_only [of mixed_storage "[1::nat]" live_network app_origin]
      activate_leaves_current_only [of old_storage "[1::nat]" live_network app_origin]
    by simp
qed

subsection \<open>Installation\<close>

lemma lookup_put:
  "cache_lookup (cache_put name url r cs) name url' =
     (if name \<in> set (map fst cs) then (if url' = url then Some r else cache_lookup cs name url')
      else None)"
proof (induction cs)
  case Nil
  then show ?case by (simp add: cache_put_def cache_lookup_def)
next
  case (Cons p cs)
  obtain n c where p: "p = (n, c)" by (cases p)
  have tail: "cache_put name url r (p # cs) =
     (if n = name then (n, (url, r) # filter (\<lambda>(u, x). u \<noteq> url) c) else (n, c)) #
       cache_put name url r cs"
    by (simp add: cache_put_def p)
  have other: "url' \<noteq> url \<Longrightarrow> map_of (filter (\<lambda>(u, x). u \<noteq> url) c) url' = map_of c url'"
    by (induction c) auto
  show ?case
  proof (cases "n = name")
    case True
    then show ?thesis using p tail other by (simp add: cache_lookup_def)
  next
    case False
    then show ?thesis using p tail Cons.IH by (simp add: cache_lookup_def)
  qed
qed

lemma lookup_in_keys: "cache_lookup cs name url = Some r \<Longrightarrow> name \<in> set (map fst cs)"
  by (auto simp: cache_lookup_def split: option.splits dest: map_of_SomeD intro: rev_image_eqI)

lemma fold_put_preserves:
  "cache_lookup s name k = Some r \<Longrightarrow> net k = Resolved r \<Longrightarrow>
   cache_lookup (fold (\<lambda>u s. case net (origin @ u) of
                               Resolved r \<Rightarrow> cache_put name (origin @ u) r s
                             | NetworkError \<Rightarrow> s) urls s) name k = Some r"
proof (induction urls arbitrary: s)
  case Nil
  then show ?case by simp
next
  case (Cons x xs)
  show ?case
  proof (cases "net (origin @ x)")
    case NetworkError
    then show ?thesis using Cons by simp
  next
    case (Resolved r')
    have "cache_lookup (cache_put name (origin @ x) r' s) name k = Some r"
      using Cons.prems Resolved lookup_in_keys[OF Cons.prems(1)] by (auto simp: lookup_put)
    then show ?thesis using Cons.IH[OF _ Cons.prems(2)] Resolved by simp
  qed
qed

lemma fold_put_stores:
  "name \<in> set (map fst s) \<Longrightarrow> u \<in> set urls \<Longrightarrow> net (origin @ u) = Resolved r \<Longrightarrow>
   cache_lookup (fold (\<lambda>u s. case net (origin @ u) of
                               Resolved r \<Rightarrow> cache_put name (origin @ u) r s
                             | NetworkError \<Rightarrow> s) urls s) name (origin @ u) = Some r"
proof (induction urls arbitrary: s)
  case Nil
  then show ?case by simp
next
  case (Cons x xs)
  show ?case
  proof (cases "u = x")
    case True
    have "cache_lookup (cache_put name (origin @ x) r s) name (origin @ x) = Some r"
      using Cons.prems(1) by (simp add: lookup_put)
    then show ?thesis
      using True Cons.prems(3) fold_put_preserves[of _ name "origin @ x" r net origin xs] by simp
  next
    case False
    then have "u \<in> set xs" using Cons.prems by simp
    moreover have "name \<in> set (map fst (case net (origin @ x) of
                          Resolved r \<Rightarrow> cache_put name (origin @ x) r s
                        | NetworkError \<Rightarrow> s))"
      using Cons.prems(1) cache_put_keys[of name]
      by (auto simp flip: set_map split: fetch_result.splits)
    ultimately show ?thesis using Cons.IH Cons.prems(3) by simp
  qed
qed

lemma caches_open_has: "name \<in> set (map fst (caches_open name cs))"
  by (simp add: caches_open_def)

text \<open>
  C9, as claimed: \<open>install\<close> completes only after every manifest asset has been fetched
  and stored, and a failed fetch fails the transition. Refuted: with the fetch of
  \<open>/manifest.json\<close> failing, the promise handed to \<open>waitUntil\<close> resolves all the same,
  and not even \<open>/index.html\<close> is in the cache.
\<close>

theorem install_completes_despite_failure_counterexample:
  "broken_manifest_network (app_origin @ ''/manifest.json'') = NetworkError
   \<and> install broken_manifest_network app_origin [] = ([(CACHE_NAME, [])], Inr ())
   \<and> cache_lookup (fst (install broken_manifest_network app_origin [])) CACHE_NAME
        (app_origin @ ''/index.html'') = None"
  by (simp add: install_def cache_addAll_def caches_open_def cache_lookup_def CACHE_URLS_def
      response_ok_def broken_manifest_network_def app_origin_def live_response_def Let_def)

text \<open>
  C9, amended: the promise the \<open>install\<close> handler hands to \<open>waitUntil\<close> always resolves.
  When every asset of the manifest is fetched with an ok status, each of them is stored in
  the current generation before it resolves. When the fetch of any manifest asset fails,
  nothing of the manifest is committed (the storage is what opening the current generation
  left) and the transition completes all the same.
\<close>

theorem install_always_completes:
  "snd (install net origin cs) = Inr ()
   \<and> ((\<forall>u \<in> set CACHE_URLS. response_ok (net (origin @ u))) \<longrightarrow>
        (\<forall>u \<in> set CACHE_URLS. \<exists>r. net (origin @ u) = Resolved r \<and>
           cache_lookup (fst (install net origin cs)) CACHE_NAME (origin @ u) = Some r))
   \<and> (\<not> (\<forall>u \<in> set CACHE_URLS. response_ok (net (origin @ u))) \<longrightarrow>
        fst (install net origin cs) = caches_open CACHE_NAME cs)"
proof (intro conjI impI ballI)
  show "snd (install net origin cs) = Inr ()"
    by (simp add: install_def Let_def split: sum.splits)
next
  fix u
  assume all_ok: "\<forall>u \<in> set CACHE_URLS. response_ok (net (origin @ u))"
    and u: "u \<in> set CACHE_URLS"
  then have "response_ok (net (origin @ u))" by simp
  then obtain r where r: "net (origin @ u) = Resolved r"
    by (cases "net (origin @ u)") (auto simp: response_ok_def)
  have "cache_lookup (fst (install net origin cs)) CACHE_NAME (origin @ u) = Some r"
    using all_ok
      fold_put_stores[of CACHE_NAME "caches_open CACHE_NAME cs" u CACHE_URLS net origin r,
        OF caches_open_has u r]
    by (simp add: install_def Let_def cache_addAll_def list_all_iff)
  with r show "\<exists>r. net (origin @ u) = Resolved r \<and>
           cache_lookup (fst (install net origin cs)) CACHE_NAME (origin @ u) = Some r"
    by simp
next
  assume "\<not> (\<forall>u \<in> set CACHE_URLS. response_ok (net (origin @ u)))"
  then have "\<not> list_all (\<lambda>u. response_ok (net (origin @ u))) CACHE_URLS"
    by (simp only: list_all_iff not_False_eq_True)
  then show "fst (install net origin cs) = caches_open CACHE_NAME cs"
    by (simp add: install_def Let_def cache_addAll_def)
qed

theorem install_always_completes_witness:
  "list_all (\<lambda>u. response_ok (live_network (app_origin @ u))) CACHE_URLS
   \<and> snd (install live_network app_origin old_storage) = Inr ()
   \<and> cache_lookup (fst (install live_network app_origin old_storage)) CACHE_NAME
        (app_origin @ ''/index.html'') = Some live_response
   \<and> \<not> list_all (\<lambda>u. response_ok (broken_manifest_network (app_origin @ u))) CACHE_URLS
   \<and> snd (install broken_manifest_network app_origin old_storage) = Inr ()
   \<and> fst (install broken_manifest_network app_origin old_storage) =
       old_storage @ [(CACHE_NAME, [])]"
proof -
  have all_ok: "\<forall>u \<in> set CACHE_URLS. response_ok (live_network (app_origin @ u))"
    by (simp add: response_ok_def live_network_def live_response_def)
  have broken: "\<not> (\<forall>u \<in> set CACHE_URLS. response_ok (broken_manifest_network (app_origin @ u)))"
    by (simp add: CACHE_URLS_def response_ok_def broken_manifest_network_def app_origin_def)
  have index: "''/index.html'' \<in> set CACHE_URLS"
    by (simp add: CACHE_URLS_def)
  have opened: "caches_open CACHE_NAME old_storage = old_storage @ [(CACHE_NAME, [])]"
    by (simp add: caches_open_def old_storage_def CACHE_NAME_def)
  show ?thesis
    using all_ok broken index opened
      install_always_completes [of live_network app_origin old_storage]
      install_always_completes [of broken_manifest_network app_origin old_storage]
    by (auto simp: live_network_def list_all_iff)
qed

end
